theory Spec2Isabelle
  imports Main
begin

section \<open>JavaScript values used by Build/lib/rules/base.ts\<close>

text \<open>
  A JavaScript string is a sequence of code units. The functions of base.ts only compare
  code units with each other and with ASCII constants, and only count them, so a string is
  modelled as a \<^typ>\<open>string\<close> whose characters stand for the code units.

  Reading an array or a string past its end gives \<open>undefined\<close> in JavaScript; it does not
  raise. \<open>at_index xs i\<close> is \<open>xs[i]\<close>, with \<open>None\<close> for \<open>undefined\<close>.
\<close>

definition at_index :: "'a list \<Rightarrow> nat \<Rightarrow> 'a option" where
  "at_index xs i = (if i < length xs then Some (xs ! i) else None)"

text \<open>
  \<open>s.charCodeAt(i)\<close> is the number of the code unit at \<open>i\<close>, and \<open>NaN\<close> past the end
  (\<open>None\<close> here). \<open>NaN\<close> is unequal to every number, itself included, which is what
  \<open>strict_neq\<close> (the operator \<open>!==\<close> on two numbers) says.
\<close>

definition charCodeAt :: "string \<Rightarrow> nat \<Rightarrow> nat option" where
  "charCodeAt s i = (if i < length s then Some (of_char (s ! i)) else None)"

definition strict_neq :: "nat option \<Rightarrow> nat option \<Rightarrow> bool" where
  "strict_neq a b =
     (case a of None \<Rightarrow> True | Some x \<Rightarrow> (case b of None \<Rightarrow> True | Some y \<Rightarrow> x \<noteq> y))"

section \<open>fileEqual: the comparison of the candidate lines with the existing file\<close>

text \<open>
  The body of the \<open>for await\<close> loop of \<open>fileEqual\<close> either returns from the function or
  goes on with the next line of the source.
\<close>

datatype loop_ctl = Continue | Return bool

text \<open>
  One pass through the loop body, for the line \<open>lineB\<close> of the source and the value that
  \<open>index\<close> has after \<open>index++\<close>. The read \<open>linesA[index]\<close> is in range where it is made:
  \<open>index\<close> starts at -1, is incremented first, and the guard before the read has excluded
  \<open>index > linesABound\<close>.
\<close>

definition fileEqual_body :: "string list \<Rightarrow> int \<Rightarrow> string \<Rightarrow> loop_ctl" where
  "fileEqual_body linesA index lineB =
     (let linesABound = int (length linesA) - 1 in
      if index > linesABound then Return (index = int (length linesA) \<and> length lineB = 0)
      else
        let lineA = linesA ! nat index in
        if length lineA = 0 \<and> length lineB = 0 then Continue
        else if length lineA = 0 \<or> length lineB = 0 then Return False
        else
          let firstCharA = charCodeAt lineA 0; firstCharB = charCodeAt lineB 0 in
          if strict_neq firstCharA firstCharB then Return False
          else if firstCharA = Some 35 \<and> firstCharB = Some 35 then Continue
          else if firstCharA = Some 33 \<and> firstCharB = Some 33 then Continue
          else if firstCharA = Some 47 \<and> firstCharB = Some 47
                  \<and> at_index lineA 1 = Some CHR ''/'' \<and> at_index lineB 1 = Some CHR ''/''
                  \<and> at_index lineA 3 = Some CHR ''#'' \<and> at_index lineB 3 = Some CHR ''#''
               then Continue
          else if lineA \<noteq> lineB then Return False
          else Continue)"

text \<open>
  The loop over the lines of the source (a finite sequence: the lines of the existing
  file), and the statement after it, \<open>return !(index < linesABound)\<close>.
\<close>

fun fileEqual_loop :: "string list \<Rightarrow> int \<Rightarrow> string list \<Rightarrow> bool" where
  "fileEqual_loop linesA index [] = (\<not> (index < int (length linesA) - 1))"
| "fileEqual_loop linesA index (lineB # source) =
     (case fileEqual_body linesA (index + 1) lineB of
        Return r \<Rightarrow> r
      | Continue \<Rightarrow> fileEqual_loop linesA (index + 1) source)"

definition fileEqual :: "string list \<Rightarrow> string list \<Rightarrow> bool" where
  "fileEqual linesA source =
     (if length linesA = 0 then False else fileEqual_loop linesA (- 1) source)"

subsection \<open>The line rule as the specification words it\<close>



section \<open>RuleOutput: the accumulator of rules\<close>

subsection \<open>String operations of the classifier\<close>

text \<open>
  \<open>line.split(',')\<close> with a one-character separator: the fields between the separators.
  The result is never empty (the empty string gives one empty field).
\<close>

fun js_split :: "char \<Rightarrow> string \<Rightarrow> string list" where
  "js_split sep [] = [[]]"
| "js_split sep (c # cs) =
     (if c = sep then [] # js_split sep cs
      else (case js_split sep cs of
              [] \<Rightarrow> [[c]]
            | field # fields \<Rightarrow> (c # field) # fields))"

text \<open>\<open>rest.join(',')\<close>: the elements with the separator between them.\<close>

fun js_join :: "string \<Rightarrow> string list \<Rightarrow> string" where
  "js_join sep [] = []"
| "js_join sep [x] = x"
| "js_join sep (x # y # ys) = x @ sep @ js_join sep (y # ys)"

text \<open>\<open>s.includes(c)\<close> for a string \<open>c\<close> of one character.\<close>

definition js_includes :: "string \<Rightarrow> char \<Rightarrow> bool" where
  "js_includes s c = (c \<in> set s)"

subsection \<open>Errors\<close>

text \<open>
  \<open>TypeError\<close> is what JavaScript raises when a method of \<open>undefined\<close> is called
  (\<open>value.includes\<close> on a line with no second field). \<open>Error m\<close> is \<open>new Error(m)\<close>.
  \<open>InvariantError m\<close> is what \<open>invariant(value, m)\<close> of the library foxts raises when the
  value is \<open>null\<close>.
\<close>

datatype error = TypeError | Error string | InvariantError string

definition invariant :: "'a option \<Rightarrow> string \<Rightarrow> error + 'a" where
  "invariant v message = (case v of None \<Rightarrow> Inl (InvariantError message) | Some x \<Rightarrow> Inr x)"

subsection \<open>The state of a RuleOutput\<close>

text \<open>
  The class \<open>HostnameSmolTrie\<close> is imported from \<open>../trie\<close>; base.ts only calls its method
  \<open>add\<close>. The field \<open>domainTrie\<close> therefore holds the calls of \<open>add\<close> made so far, in order,
  each with the arguments that base.ts passes: the domain (\<open>None\<close> when the value read from
  a line is \<open>undefined\<close>), and the second, third and fourth argument, each \<open>None\<close> when the
  call does not pass it. The third argument is \<open>null\<close> or a number.
\<close>

datatype trie_arg = JsNull | JsNum nat

datatype trie_call = Add "string option" "bool option" "trie_arg option" "nat option"

text \<open>
  An ingestion queued on \<open>pendingPromise\<close>: the source (a finite sequence of lines) and the
  method that will read it.
\<close>

datatype task = FromDomainset "string list" | FromRuleset "string list"

text \<open>
  The fields of the class. A \<open>Set<string>\<close> is a set whose elements are strings, or
  \<open>undefined\<close> (\<open>None\<close>) when the classifier adds the missing second field of a line: the
  type checker takes \<open>splitted[1]\<close> for a string, and \<open>Set.add\<close> accepts any value.

  \<open>pendingPromise\<close> is \<open>null\<close> (\<open>None\<close>) or the chain of ingestions queued since the last
  \<open>done()\<close>, in the order in which the chain runs them. \<open>preprocessed\<close> is the private
  field \<open>$$preprocessed\<close>, of the type \<open>'p\<close> that the subclass chooses, \<open>None\<close> for
  \<open>null\<close>. \<open>preprocess_calls\<close> is not a field of the class: it counts the calls of the
  abstract method \<open>preprocess()\<close>, so that a statement can say how often it has run.
\<close>

record 'p RuleOutput =
  domainTrie :: "trie_call list"
  domainKeywords :: "string option set"
  domainWildcard :: "string option set"
  userAgent :: "string option set"
  processName :: "string option set"
  processPath :: "string option set"
  urlRegex :: "string option set"
  ipcidr :: "string option set"
  ipcidrNoResolve :: "string option set"
  ipasn :: "string option set"
  ipasnNoResolve :: "string option set"
  ipcidr6 :: "string option set"
  ipcidr6NoResolve :: "string option set"
  geoip :: "string option set"
  groipNoResolve :: "string option set"
  sourceIpOrCidr :: "string option set"
  sourcePort :: "string option set"
  destPort :: "string option set"
  otherRules :: "string list"
  pendingPromise :: "task list option"
  title :: "string option"
  description :: "string list option"
  preprocessed :: "'p option"
  preprocess_calls :: nat

text \<open>A new instance, as the field initialisers leave it.\<close>

definition new_RuleOutput :: "'p RuleOutput" where
  "new_RuleOutput =
     \<lparr>domainTrie = [], domainKeywords = {}, domainWildcard = {}, userAgent = {},
      processName = {}, processPath = {}, urlRegex = {}, ipcidr = {}, ipcidrNoResolve = {},
      ipasn = {}, ipasnNoResolve = {}, ipcidr6 = {}, ipcidr6NoResolve = {}, geoip = {},
      groipNoResolve = {}, sourceIpOrCidr = {}, sourcePort = {}, destPort = {},
      otherRules = [], pendingPromise = None, title = None, description = None,
      preprocessed = None, preprocess_calls = 0\<rparr>"

subsection \<open>The builder methods\<close>

definition withTitle :: "'p RuleOutput \<Rightarrow> string \<Rightarrow> 'p RuleOutput" where
  "withTitle st t = st\<lparr>title := Some t\<rparr>"

definition withDescription :: "'p RuleOutput \<Rightarrow> string list \<Rightarrow> 'p RuleOutput" where
  "withDescription st d = st\<lparr>description := Some d\<rparr>"

text \<open>\<open>this.domainTrie.add(...)\<close>: one more call on the trie.\<close>

definition trie_add ::
  "trie_call list \<Rightarrow> string option \<Rightarrow> bool option \<Rightarrow> trie_arg option \<Rightarrow> nat option
    \<Rightarrow> trie_call list" where
  "trie_add t domain arg2 arg3 arg4 = t @ [Add domain arg2 arg3 arg4]"

definition addDomain :: "'p RuleOutput \<Rightarrow> string \<Rightarrow> 'p RuleOutput" where
  "addDomain st domain =
     st\<lparr>domainTrie := trie_add (domainTrie st) (Some domain) None None None\<rparr>"

text \<open>\<open>bulkAddDomain\<close>: the entries of the array in order; a \<open>null\<close> entry (\<open>None\<close>) is skipped.\<close>

fun bulkAddDomain :: "'p RuleOutput \<Rightarrow> string option list \<Rightarrow> 'p RuleOutput" where
  "bulkAddDomain st [] = st"
| "bulkAddDomain st (d # domains) =
     bulkAddDomain
       (case d of
          None \<Rightarrow> st
        | Some x \<Rightarrow>
            st\<lparr>domainTrie := trie_add (domainTrie st) (Some x) (Some False) (Some JsNull) (Some 0)\<rparr>)
       domains"

text \<open>
  \<open>addDomainSuffix(domain, lineFromDot)\<close> with the flag given. The classifier calls it with
  the second field of a line, which may be \<open>undefined\<close>. \<open>lineFromDot_default\<close> is the value
  of the parameter when the caller leaves it out, \<open>domain[0] === '.'\<close>.
\<close>

definition addDomainSuffix :: "'p RuleOutput \<Rightarrow> string option \<Rightarrow> bool \<Rightarrow> 'p RuleOutput" where
  "addDomainSuffix st domain lineFromDot =
     st\<lparr>domainTrie :=
          trie_add (domainTrie st) domain (Some True)
            (Some (JsNum (if lineFromDot then 1 else 0))) None\<rparr>"

definition lineFromDot_default :: "string \<Rightarrow> bool" where
  "lineFromDot_default domain = (at_index domain 0 = Some CHR ''.'')"

fun bulkAddDomainSuffix :: "'p RuleOutput \<Rightarrow> string list \<Rightarrow> 'p RuleOutput" where
  "bulkAddDomainSuffix st [] = st"
| "bulkAddDomainSuffix st (d # domains) =
     bulkAddDomainSuffix (addDomainSuffix st (Some d) (lineFromDot_default d)) domains"

definition addDomainKeyword :: "'p RuleOutput \<Rightarrow> string option \<Rightarrow> 'p RuleOutput" where
  "addDomainKeyword st keyword = st\<lparr>domainKeywords := insert keyword (domainKeywords st)\<rparr>"

subsection \<open>Ingestion of a domain set and of a rule set\<close>

text \<open>\<open>addFromDomainsetPromise\<close>: the loop over the lines of the source.\<close>

fun addFromDomainsetPromise :: "'p RuleOutput \<Rightarrow> string list \<Rightarrow> 'p RuleOutput" where
  "addFromDomainsetPromise st [] = st"
| "addFromDomainsetPromise st (line # source) =
     addFromDomainsetPromise
       (if at_index line 0 = Some CHR ''.'' then addDomainSuffix st (Some line) True
        else st\<lparr>domainTrie :=
                 trie_add (domainTrie st) (Some line) (Some False) (Some JsNull) (Some 0)\<rparr>)
       source"

text \<open>
  The body of the loop of \<open>addFromRulesetPromise\<close> for one line: the \<open>switch\<close> on the first
  field. \<open>value.includes\<close> raises when the line has no second field; every other branch
  passes \<open>value\<close> on as it is. The backslash is the character \<open>0x5C\<close>.
\<close>

definition addFromRuleset_line :: "'p RuleOutput \<Rightarrow> string \<Rightarrow> error + 'p RuleOutput" where
  "addFromRuleset_line st line =
     (let splitted = js_split CHR '','' line;
          type = at_index splitted 0;
          value = at_index splitted 1;
          arg = at_index splitted 2
      in
      if type = Some ''DOMAIN'' then
        Inr (st\<lparr>domainTrie :=
                  trie_add (domainTrie st) value (Some False) (Some JsNull) (Some 0)\<rparr>)
      else if type = Some ''DOMAIN-SUFFIX'' then Inr (addDomainSuffix st value False)
      else if type = Some ''DOMAIN-KEYWORD'' then Inr (addDomainKeyword st value)
      else if type = Some ''DOMAIN-WILDCARD'' then
        Inr (st\<lparr>domainWildcard := insert value (domainWildcard st)\<rparr>)
      else if type = Some ''USER-AGENT'' then
        Inr (st\<lparr>userAgent := insert value (userAgent st)\<rparr>)
      else if type = Some ''PROCESS-NAME'' then
        (case value of
           None \<Rightarrow> Inl TypeError
         | Some v \<Rightarrow>
             if js_includes v CHR ''/'' \<or> js_includes v (CHR 0x5C)
             then Inr (st\<lparr>processPath := insert value (processPath st)\<rparr>)
             else Inr (st\<lparr>processName := insert value (processName st)\<rparr>))
      else if type = Some ''URL-REGEX'' then
        (let rest = drop 1 splitted in
         Inr (st\<lparr>urlRegex := insert (Some (js_join '','' rest)) (urlRegex st)\<rparr>))
      else if type = Some ''IP-CIDR'' then
        Inr (if arg = Some ''no-resolve''
             then st\<lparr>ipcidrNoResolve := insert value (ipcidrNoResolve st)\<rparr>
             else st\<lparr>ipcidr := insert value (ipcidr st)\<rparr>)
      else if type = Some ''IP-CIDR6'' then
        Inr (if arg = Some ''no-resolve''
             then st\<lparr>ipcidr6NoResolve := insert value (ipcidr6NoResolve st)\<rparr>
             else st\<lparr>ipcidr6 := insert value (ipcidr6 st)\<rparr>)
      else if type = Some ''IP-ASN'' then
        Inr (if arg = Some ''no-resolve''
             then st\<lparr>ipasnNoResolve := insert value (ipasnNoResolve st)\<rparr>
             else st\<lparr>ipasn := insert value (ipasn st)\<rparr>)
      else if type = Some ''GEOIP'' then
        Inr (if arg = Some ''no-resolve''
             then st\<lparr>groipNoResolve := insert value (groipNoResolve st)\<rparr>
             else st\<lparr>geoip := insert value (geoip st)\<rparr>)
      else if type = Some ''SRC-IP'' then
        Inr (st\<lparr>sourceIpOrCidr := insert value (sourceIpOrCidr st)\<rparr>)
      else if type = Some ''SRC-PORT'' then
        Inr (st\<lparr>sourcePort := insert value (sourcePort st)\<rparr>)
      else if type = Some ''DEST-PORT'' then
        Inr (st\<lparr>destPort := insert value (destPort st)\<rparr>)
      else Inr (st\<lparr>otherRules := otherRules st @ [line]\<rparr>))"

text \<open>\<open>addFromRulesetPromise\<close>: the loop; an error raised for a line ends it.\<close>

fun addFromRulesetPromise :: "'p RuleOutput \<Rightarrow> string list \<Rightarrow> error + 'p RuleOutput" where
  "addFromRulesetPromise st [] = Inr st"
| "addFromRulesetPromise st (line # source) =
     (case addFromRuleset_line st line of
        Inl e \<Rightarrow> Inl e
      | Inr st' \<Rightarrow> addFromRulesetPromise st' source)"

text \<open>
  \<open>addFromDomainset\<close> and \<open>addFromRuleset\<close> do not read the source: they append the
  ingestion to the chain \<open>pendingPromise\<close>, starting a chain when there is none.
\<close>

definition enqueue :: "'p RuleOutput \<Rightarrow> task \<Rightarrow> 'p RuleOutput" where
  "enqueue st t =
     st\<lparr>pendingPromise :=
          Some ((case pendingPromise st of None \<Rightarrow> [] | Some chain \<Rightarrow> chain) @ [t])\<rparr>"

definition addFromDomainset :: "'p RuleOutput \<Rightarrow> string list \<Rightarrow> 'p RuleOutput" where
  "addFromDomainset st source = enqueue st (FromDomainset source)"

definition addFromRuleset :: "'p RuleOutput \<Rightarrow> string list \<Rightarrow> 'p RuleOutput" where
  "addFromRuleset st source = enqueue st (FromRuleset source)"

subsection \<open>CIDR normalisation and the bulk CIDR adders\<close>

definition ipToCidr :: "string \<Rightarrow> nat \<Rightarrow> string" where
  "ipToCidr ip version =
     (if js_includes ip CHR ''/'' then ip
      else if version = 4 then ip @ ''/32''
      else ip @ ''/128'')"

fun bulkAddCIDR4 :: "'p RuleOutput \<Rightarrow> string list \<Rightarrow> 'p RuleOutput" where
  "bulkAddCIDR4 st [] = st"
| "bulkAddCIDR4 st (c # cidrs) =
     bulkAddCIDR4 (st\<lparr>ipcidr := insert (Some (ipToCidr c 4)) (ipcidr st)\<rparr>) cidrs"

fun bulkAddCIDR4NoResolve :: "'p RuleOutput \<Rightarrow> string list \<Rightarrow> 'p RuleOutput" where
  "bulkAddCIDR4NoResolve st [] = st"
| "bulkAddCIDR4NoResolve st (c # cidrs) =
     bulkAddCIDR4NoResolve
       (st\<lparr>ipcidrNoResolve := insert (Some (ipToCidr c 4)) (ipcidrNoResolve st)\<rparr>) cidrs"

fun bulkAddCIDR6 :: "'p RuleOutput \<Rightarrow> string list \<Rightarrow> 'p RuleOutput" where
  "bulkAddCIDR6 st [] = st"
| "bulkAddCIDR6 st (c # cidrs) =
     bulkAddCIDR6 (st\<lparr>ipcidr6 := insert (Some (ipToCidr c 6)) (ipcidr6 st)\<rparr>) cidrs"

fun bulkAddCIDR6NoResolve :: "'p RuleOutput \<Rightarrow> string list \<Rightarrow> 'p RuleOutput" where
  "bulkAddCIDR6NoResolve st [] = st"
| "bulkAddCIDR6NoResolve st (c # cidrs) =
     bulkAddCIDR6NoResolve
       (st\<lparr>ipcidr6NoResolve := insert (Some (ipToCidr c 6)) (ipcidr6NoResolve st)\<rparr>) cidrs"

subsection \<open>The barrier, the preprocessed view and writing\<close>

text \<open>
  \<open>done()\<close> awaits the chain and then sets \<open>pendingPromise\<close> to \<open>null\<close>. The queued
  ingestions run in the order of the chain; when one of them raises, the chain is
  rejected, \<open>done()\<close> raises the same error and \<open>pendingPromise\<close> is not reset.
\<close>

fun run_task :: "'p RuleOutput \<Rightarrow> task \<Rightarrow> error + 'p RuleOutput" where
  "run_task st (FromDomainset source) = Inr (addFromDomainsetPromise st source)"
| "run_task st (FromRuleset source) = addFromRulesetPromise st source"

fun run_chain :: "'p RuleOutput \<Rightarrow> task list \<Rightarrow> error + 'p RuleOutput" where
  "run_chain st [] = Inr st"
| "run_chain st (t # chain) =
     (case run_task st t of
        Inl e \<Rightarrow> Inl e
      | Inr st' \<Rightarrow> run_chain st' chain)"

definition done_op :: "'p RuleOutput \<Rightarrow> error + 'p RuleOutput" where
  "done_op st =
     (case pendingPromise st of
        None \<Rightarrow> Inr st
      | Some chain \<Rightarrow>
          (case run_chain st chain of
             Inl e \<Rightarrow> Inl e
           | Inr st' \<Rightarrow> Inr (st'\<lparr>pendingPromise := None\<rparr>)))"

definition guardPendingPromise :: "'p RuleOutput \<Rightarrow> error + unit" where
  "guardPendingPromise st =
     (if pendingPromise st \<noteq> None
      then Inl (Error ''You should call done() before calling this method'')
      else Inr ())"

text \<open>
  \<open>runPreprocess\<close>, with the abstract method \<open>preprocess\<close> of the subclass as a parameter:
  a function of the instance that returns the view, or \<open>null\<close> (\<open>None\<close>), which the return
  type of \<open>preprocess\<close> allows for a subclass whose view type is \<open>null\<close>.
\<close>

definition runPreprocess ::
  "('p RuleOutput \<Rightarrow> 'p option) \<Rightarrow> 'p RuleOutput \<Rightarrow> error + 'p RuleOutput" where
  "runPreprocess preprocess st =
     (if preprocessed st = None then
        (case guardPendingPromise st of
           Inl e \<Rightarrow> Inl e
         | Inr u \<Rightarrow>
             Inr (st\<lparr>preprocessed := preprocess st,
                     preprocess_calls := Suc (preprocess_calls st)\<rparr>))
      else Inr st)"

text \<open>The getter \<open>$preprocessed\<close>: the value read, and the instance after the read.\<close>

definition get_preprocessed ::
  "('p RuleOutput \<Rightarrow> 'p option) \<Rightarrow> 'p RuleOutput \<Rightarrow> error + ('p option \<times> 'p RuleOutput)" where
  "get_preprocessed preprocess st =
     (case runPreprocess preprocess st of
        Inl e \<Rightarrow> Inl e
      | Inr st' \<Rightarrow> Inr (preprocessed st', st'))"

text \<open>
  \<open>write\<close> and \<open>writeClash\<close> await \<open>done()\<close>, check the title and the description, and
  only then build and compare the output files. That last part works through the
  abstract emitters, \<open>withBannerArray\<close> and the file system; it is the parameter
  \<open>publish\<close>, which receives the instance, the title and the description.
\<close>

definition write_op ::
  "('p RuleOutput \<Rightarrow> string \<Rightarrow> string list \<Rightarrow> 'r) \<Rightarrow> 'p RuleOutput \<Rightarrow> error + ('r \<times> 'p RuleOutput)" where
  "write_op publish st =
     (case done_op st of
        Inl e \<Rightarrow> Inl e
      | Inr st' \<Rightarrow>
          (case invariant (title st') ''Missing title'' of
             Inl e \<Rightarrow> Inl e
           | Inr t \<Rightarrow>
               (case invariant (description st') ''Missing description'' of
                  Inl e \<Rightarrow> Inl e
                | Inr d \<Rightarrow> Inr (publish st' t d, st'))))"

definition writeClash ::
  "('p RuleOutput \<Rightarrow> string \<Rightarrow> string list \<Rightarrow> 'r) \<Rightarrow> 'p RuleOutput \<Rightarrow> error + ('r \<times> 'p RuleOutput)" where
  "writeClash publish st =
     (case done_op st of
        Inl e \<Rightarrow> Inl e
      | Inr st' \<Rightarrow>
          (case invariant (title st') ''Missing title'' of
             Inl e \<Rightarrow> Inl e
           | Inr t \<Rightarrow>
               (case invariant (description st') ''Missing description'' of
                  Inl e \<Rightarrow> Inl e
                | Inr d \<Rightarrow> Inr (publish st' t d, st'))))"

subsection \<open>The type tokens of the classifier\<close>

text \<open>
  The \<open>case\<close> labels of the \<open>switch\<close> in \<open>addFromRulesetPromise\<close>. A line is unrecognised
  when its first field is none of them; it then reaches the \<open>default\<close> branch.
\<close>

definition supported_types :: "string list" where
  "supported_types =
     [''DOMAIN'', ''DOMAIN-SUFFIX'', ''DOMAIN-KEYWORD'', ''DOMAIN-WILDCARD'', ''USER-AGENT'',
      ''PROCESS-NAME'', ''URL-REGEX'', ''IP-CIDR'', ''IP-CIDR6'', ''IP-ASN'', ''GEOIP'',
      ''SRC-IP'', ''SRC-PORT'', ''DEST-PORT'']"

definition unrecognised :: "string \<Rightarrow> bool" where
  "unrecognised line =
     (case js_split CHR '','' line of
        [] \<Rightarrow> True
      | ty # others \<Rightarrow> ty \<notin> set supported_types)"

subsection \<open>What the trie holds\<close>

text \<open>
  Modelled from the spec: the class \<open>HostnameSmolTrie\<close> (\<open>Build/lib/trie\<close>) is not among
  the sources. The specification gives its contract: it is called as
  \<open>add(domain, isSuffix, suffixStartOffset, priority)\<close>, it keeps exact domains and suffix
  domains apart and deduplicates them (section 6), \<open>addDomain\<close> inserts an exact domain, and
  with a suffix start offset of one the leading dot is stripped before storing
  (section 4.2). \<open>stored_domain\<close> is the string that a call stores: the domain from the
  offset on, the whole domain when the offset is \<open>null\<close> or not passed. No contract is
  given for a domain that is \<open>undefined\<close>; such a call stores nothing here.
  \<open>trie_exact\<close> and \<open>trie_suffix\<close> are the two sets of domains held after a sequence of
  calls. Whitelisting is not modelled.
\<close>

fun stored_domain :: "trie_call \<Rightarrow> string option" where
  "stored_domain (Add None isSuffix suffixStartOffset priority) = None"
| "stored_domain (Add (Some d) isSuffix suffixStartOffset priority) =
     Some (drop (case suffixStartOffset of Some (JsNum n) \<Rightarrow> n | _ \<Rightarrow> 0) d)"

fun is_suffix_call :: "trie_call \<Rightarrow> bool" where
  "is_suffix_call (Add d isSuffix suffixStartOffset priority) = (isSuffix = Some True)"

definition trie_exact :: "trie_call list \<Rightarrow> string set" where
  "trie_exact t =
     set (List.map_filter (\<lambda>c. if is_suffix_call c then None else stored_domain c) t)"

definition trie_suffix :: "trie_call list \<Rightarrow> string set" where
  "trie_suffix t =
     set (List.map_filter (\<lambda>c. if is_suffix_call c then stored_domain c else None) t)"

subsection \<open>Sequences of operations on an instance\<close>

text \<open>
  The adding methods of the class, as values, and a caller that applies a sequence of
  them to an instance and then awaits \<open>done()\<close>. \<open>AddDomainSuffix\<close> carries the optional
  flag of the method (\<open>None\<close>: left out).
\<close>

datatype add_op =
    AddDomain string
  | BulkAddDomain "string option list"
  | AddDomainSuffix string "bool option"
  | BulkAddDomainSuffix "string list"
  | AddDomainKeyword string
  | AddFromDomainset "string list"
  | AddFromRuleset "string list"
  | BulkAddCIDR4 "string list"
  | BulkAddCIDR4NoResolve "string list"
  | BulkAddCIDR6 "string list"
  | BulkAddCIDR6NoResolve "string list"

fun apply_op :: "'p RuleOutput \<Rightarrow> add_op \<Rightarrow> 'p RuleOutput" where
  "apply_op st (AddDomain d) = addDomain st d"
| "apply_op st (BulkAddDomain ds) = bulkAddDomain st ds"
| "apply_op st (AddDomainSuffix d flag) =
     addDomainSuffix st (Some d) (case flag of None \<Rightarrow> lineFromDot_default d | Some b \<Rightarrow> b)"
| "apply_op st (BulkAddDomainSuffix ds) = bulkAddDomainSuffix st ds"
| "apply_op st (AddDomainKeyword k) = addDomainKeyword st (Some k)"
| "apply_op st (AddFromDomainset source) = addFromDomainset st source"
| "apply_op st (AddFromRuleset source) = addFromRuleset st source"
| "apply_op st (BulkAddCIDR4 cidrs) = bulkAddCIDR4 st cidrs"
| "apply_op st (BulkAddCIDR4NoResolve cidrs) = bulkAddCIDR4NoResolve st cidrs"
| "apply_op st (BulkAddCIDR6 cidrs) = bulkAddCIDR6 st cidrs"
| "apply_op st (BulkAddCIDR6NoResolve cidrs) = bulkAddCIDR6NoResolve st cidrs"

definition run_ops :: "'p RuleOutput \<Rightarrow> add_op list \<Rightarrow> error + 'p RuleOutput" where
  "run_ops st ops = done_op (foldl apply_op st ops)"

text \<open>The seventeen fields of the class that are a \<open>Set\<close>.\<close>

definition set_buckets :: "'p RuleOutput \<Rightarrow> string option set list" where
  "set_buckets st =
     [domainKeywords st, domainWildcard st, userAgent st, processName st, processPath st,
      urlRegex st, ipcidr st, ipcidrNoResolve st, ipasn st, ipasnNoResolve st, ipcidr6 st,
      ipcidr6NoResolve st, geoip st, groipNoResolve st, sourceIpOrCidr st, sourcePort st,
      destPort st]"

text \<open>
  No bucket holds the empty string: none of the sets, not the list \<open>otherRules\<close>, and
  neither of the two sets of domains of the trie.
\<close>

definition no_empty_string :: "'p RuleOutput \<Rightarrow> bool" where
  "no_empty_string st =
     (list_all (\<lambda>bucket. Some [] \<notin> bucket) (set_buckets st)
      \<and> [] \<notin> set (otherRules st)
      \<and> [] \<notin> trie_exact (domainTrie st)
      \<and> [] \<notin> trie_suffix (domainTrie st))"




text \<open>
  A caller that reads \<open>$preprocessed\<close> a number of times in a row: the values read, in
  order, and the instance after the last read.
\<close>

fun read_times ::
  "('p RuleOutput \<Rightarrow> 'p option) \<Rightarrow> nat \<Rightarrow> 'p RuleOutput \<Rightarrow> error + ('p option list \<times> 'p RuleOutput)" where
  "read_times preprocess 0 st = Inr ([], st)"
| "read_times preprocess (Suc n) st =
     (case get_preprocessed preprocess st of
        Inl e \<Rightarrow> Inl e
      | Inr (v, st') \<Rightarrow>
          (case read_times preprocess n st' of
             Inl e \<Rightarrow> Inl e
           | Inr (vs, st'') \<Rightarrow> Inr (v # vs, st'')))"


definition sets_within :: "'p RuleOutput \<Rightarrow> 'p RuleOutput \<Rightarrow> bool" where
  "sets_within a b =
     (list_all2 (\<subseteq>) (set_buckets a) (set_buckets b)
      \<and> trie_exact (domainTrie a) \<subseteq> trie_exact (domainTrie b)
      \<and> trie_suffix (domainTrie a) \<subseteq> trie_suffix (domainTrie b))"



text \<open>The two operations that only queue an ingestion.\<close>

fun queued :: "add_op \<Rightarrow> bool" where
  "queued (AddFromDomainset source) = True"
| "queued (AddFromRuleset source) = True"
| "queued other = False"

section \<open>Properties of fileEqual\<close>






















text \<open>
  C5. An empty candidate is never equal to the existing file, whatever the file holds.
\<close>

theorem fileEqual_empty_candidate: "\<not> fileEqual [] source"
  by (simp add: fileEqual_def)



text \<open>
  C1. With the candidate \<open>["a"]\<close> and the existing file \<open>["a", "", "b"]\<close> the loop
  returns at the first line past the candidate, which is empty, and never reads \<open>"b"\<close>:
  the files count as equal although an extra line of the existing file is not empty.
\<close>

theorem fileEqual_extra_line_unread:
  "fileEqual [''a''] [''a'', '''', ''b'']
   \<and> \<not> list_all (\<lambda>lineB. length lineB = 0) (drop (length [''a'']) [''a'', '''', ''b''])"
  by (simp add: fileEqual_def fileEqual_body_def charCodeAt_def strict_neq_def at_index_def)

section \<open>Properties of the accumulator\<close>

subsection \<open>Splitting and joining\<close>

lemma js_split_nonempty: "js_split sep s \<noteq> []"
  by (induction s) (auto split: list.split)

lemma js_split_prefix: "sep \<notin> set a \<Longrightarrow> js_split sep (a @ sep # b) = a # js_split sep b"
  by (induction a) (auto split: list.split)

lemma js_join_Cons_Cons: "js_join sep ((c # f) # fs) = c # js_join sep (f # fs)"
  by (cases fs) simp_all

lemma js_join_split: "js_join [sep] (js_split sep s) = s"
proof (induction s)
  case Nil
  then show ?case by simp
next
  case (Cons c cs)
  obtain f fs where fs: "js_split sep cs = f # fs"
    using js_split_nonempty [of sep cs] by (cases "js_split sep cs") auto
  with Cons show ?case
    by (auto simp: js_join_Cons_Cons)
qed

subsection \<open>The bulk CIDR adders\<close>

lemma bulkAddCIDR4_eq:
  "bulkAddCIDR4 st cidrs =
     st\<lparr>ipcidr := ipcidr st \<union> (\<lambda>c. Some (ipToCidr c 4)) ` set cidrs\<rparr>"
  by (induction cidrs arbitrary: st) simp_all

lemma bulkAddCIDR4NoResolve_eq:
  "bulkAddCIDR4NoResolve st cidrs =
     st\<lparr>ipcidrNoResolve := ipcidrNoResolve st \<union> (\<lambda>c. Some (ipToCidr c 4)) ` set cidrs\<rparr>"
  by (induction cidrs arbitrary: st) simp_all

lemma bulkAddCIDR6_eq:
  "bulkAddCIDR6 st cidrs =
     st\<lparr>ipcidr6 := ipcidr6 st \<union> (\<lambda>c. Some (ipToCidr c 6)) ` set cidrs\<rparr>"
  by (induction cidrs arbitrary: st) simp_all

lemma bulkAddCIDR6NoResolve_eq:
  "bulkAddCIDR6NoResolve st cidrs =
     st\<lparr>ipcidr6NoResolve := ipcidr6NoResolve st \<union> (\<lambda>c. Some (ipToCidr c 6)) ` set cidrs\<rparr>"
  by (induction cidrs arbitrary: st) simp_all

text \<open>
  C8. \<open>ipToCidr\<close> returns a string that contains \<open>/\<close> unchanged, and otherwise appends
  \<open>/32\<close> for version 4 and \<open>/128\<close> for version 6. Each of the four bulk CIDR adders adds
  to its own bucket the normalised form of every entry, and changes nothing else.
\<close>

theorem ipToCidr_normalises_bulk_adders:
  "(js_includes ip CHR ''/'' \<longrightarrow> ipToCidr ip version = ip)
   \<and> (\<not> js_includes ip CHR ''/'' \<longrightarrow>
        ipToCidr ip 4 = ip @ ''/32'' \<and> ipToCidr ip 6 = ip @ ''/128'')
   \<and> bulkAddCIDR4 st cidrs =
        st\<lparr>ipcidr := ipcidr st \<union> (\<lambda>c. Some (ipToCidr c 4)) ` set cidrs\<rparr>
   \<and> bulkAddCIDR4NoResolve st cidrs =
        st\<lparr>ipcidrNoResolve := ipcidrNoResolve st \<union> (\<lambda>c. Some (ipToCidr c 4)) ` set cidrs\<rparr>
   \<and> bulkAddCIDR6 st cidrs =
        st\<lparr>ipcidr6 := ipcidr6 st \<union> (\<lambda>c. Some (ipToCidr c 6)) ` set cidrs\<rparr>
   \<and> bulkAddCIDR6NoResolve st cidrs =
        st\<lparr>ipcidr6NoResolve := ipcidr6NoResolve st \<union> (\<lambda>c. Some (ipToCidr c 6)) ` set cidrs\<rparr>"
  by (simp add: ipToCidr_def bulkAddCIDR4_eq bulkAddCIDR4NoResolve_eq bulkAddCIDR6_eq
      bulkAddCIDR6NoResolve_eq)

theorem ipToCidr_normalises_bulk_adders_witness:
  "ipToCidr ''1.2.3.4'' 4 = ''1.2.3.4/32''
   \<and> ipToCidr ''1.2.3.0/24'' 4 = ''1.2.3.0/24''
   \<and> ipToCidr ''::1'' 6 = ''::1/128''
   \<and> ipcidr (bulkAddCIDR4 (new_RuleOutput :: unit RuleOutput) [''1.2.3.4'', ''1.2.3.0/24''])
        = {Some ''1.2.3.4/32'', Some ''1.2.3.0/24''}
   \<and> ipcidr6NoResolve (bulkAddCIDR6NoResolve (new_RuleOutput :: unit RuleOutput) [''::1''])
        = {Some ''::1/128''}"
proof -
  have bare: "\<not> js_includes ''1.2.3.4'' CHR ''/''" and bare6: "\<not> js_includes ''::1'' CHR ''/''"
    and prefixed: "js_includes ''1.2.3.0/24'' CHR ''/''"
    by (simp_all add: js_includes_def)
  have one: "ipToCidr ''1.2.3.4'' 4 = ''1.2.3.4/32''"
    using ipToCidr_normalises_bulk_adders [of "''1.2.3.4''", THEN conjunct2, THEN conjunct1]
      bare by simp
  have two: "ipToCidr ''1.2.3.0/24'' 4 = ''1.2.3.0/24''"
    using ipToCidr_normalises_bulk_adders [of "''1.2.3.0/24''" 4, THEN conjunct1] prefixed
    by simp
  have three: "ipToCidr ''::1'' 6 = ''::1/128''"
    using ipToCidr_normalises_bulk_adders [of "''::1''", THEN conjunct2, THEN conjunct1]
      bare6 by simp
  have four: "ipcidr (bulkAddCIDR4 (new_RuleOutput :: unit RuleOutput) [''1.2.3.4'', ''1.2.3.0/24''])
      = {Some ''1.2.3.4/32'', Some ''1.2.3.0/24''}"
    using ipToCidr_normalises_bulk_adders [of "[]" 4 "new_RuleOutput :: unit RuleOutput"
        "[''1.2.3.4'', ''1.2.3.0/24'']"] one two
    by (simp add: new_RuleOutput_def)
  have five: "ipcidr6NoResolve (bulkAddCIDR6NoResolve (new_RuleOutput :: unit RuleOutput) [''::1''])
      = {Some ''::1/128''}"
    using ipToCidr_normalises_bulk_adders [of "[]" 4 "new_RuleOutput :: unit RuleOutput"
        "[''::1'']"] three
    by (simp add: new_RuleOutput_def)
  from one two three four five show ?thesis by blast
qed

subsection \<open>Ingestion through the chain\<close>

text \<open>
  The classifier and the domain-set loop do not touch \<open>pendingPromise\<close>, and they do the
  same to the buckets whatever it holds.
\<close>

lemma addFromRuleset_line_frame:
  "addFromRuleset_line (st\<lparr>pendingPromise := x\<rparr>) line =
     (case addFromRuleset_line st line of
        Inl e \<Rightarrow> Inl e
      | Inr st' \<Rightarrow> Inr (st'\<lparr>pendingPromise := x\<rparr>))"
  by (simp add: addFromRuleset_line_def Let_def addDomainSuffix_def addDomainKeyword_def
      split: option.split)

lemma addFromRulesetPromise_frame:
  "addFromRulesetPromise (st\<lparr>pendingPromise := x\<rparr>) source =
     (case addFromRulesetPromise st source of
        Inl e \<Rightarrow> Inl e
      | Inr st' \<Rightarrow> Inr (st'\<lparr>pendingPromise := x\<rparr>))"
  by (induction source arbitrary: st) (simp_all add: addFromRuleset_line_frame split: sum.split)

lemma addFromRuleset_line_pending:
  "addFromRuleset_line st line = Inr st' \<Longrightarrow> pendingPromise st' = pendingPromise st"
  by (auto simp: addFromRuleset_line_def Let_def addDomainSuffix_def addDomainKeyword_def
      split: option.splits if_splits)

lemma addFromRulesetPromise_pending:
  "addFromRulesetPromise st source = Inr st' \<Longrightarrow> pendingPromise st' = pendingPromise st"
proof (induction source arbitrary: st)
  case Nil
  then show ?case by simp
next
  case (Cons line source)
  then show ?case
    by (auto split: sum.splits dest: addFromRuleset_line_pending)
qed

lemma addFromDomainsetPromise_eq:
  "addFromDomainsetPromise st source =
     st\<lparr>domainTrie := domainTrie st @
        map (\<lambda>line. if at_index line 0 = Some CHR ''.''
                    then Add (Some line) (Some True) (Some (JsNum 1)) None
                    else Add (Some line) (Some False) (Some JsNull) (Some 0)) source\<rparr>"
  by (induction source arbitrary: st) (simp_all add: addDomainSuffix_def trie_add_def)

lemma addFromDomainsetPromise_frame:
  "addFromDomainsetPromise (st\<lparr>pendingPromise := x\<rparr>) source =
     (addFromDomainsetPromise st source)\<lparr>pendingPromise := x\<rparr>"
  by (simp add: addFromDomainsetPromise_eq)

lemma addFromDomainsetPromise_pending:
  "pendingPromise (addFromDomainsetPromise st source) = pendingPromise st"
  by (simp add: addFromDomainsetPromise_eq)

lemma update_pending_same: "pendingPromise st = x \<Longrightarrow> st\<lparr>pendingPromise := x\<rparr> = st"
  by auto

text \<open>
  On an instance with nothing pending, queueing a rule set and awaiting \<open>done()\<close> is the
  loop of \<open>addFromRulesetPromise\<close> over the source; likewise for a domain set.
\<close>

lemma done_after_addFromRuleset:
  assumes "pendingPromise st = None"
  shows "done_op (addFromRuleset st source) = addFromRulesetPromise st source"
proof (cases "addFromRulesetPromise st source")
  case (Inl e)
  with assms show ?thesis
    by (simp add: done_op_def addFromRuleset_def enqueue_def addFromRulesetPromise_frame)
next
  case (Inr st')
  then have "pendingPromise st' = None"
    using assms addFromRulesetPromise_pending by fastforce
  then have "st'\<lparr>pendingPromise := None\<rparr> = st'"
    by (rule update_pending_same)
  with Inr assms show ?thesis
    by (simp add: done_op_def addFromRuleset_def enqueue_def addFromRulesetPromise_frame)
qed

lemma done_after_addFromDomainset:
  assumes "pendingPromise st = None"
  shows "done_op (addFromDomainset st source) = Inr (addFromDomainsetPromise st source)"
proof -
  have "pendingPromise (addFromDomainsetPromise st source) = None"
    using assms by (simp add: addFromDomainsetPromise_pending)
  then have "(addFromDomainsetPromise st source)\<lparr>pendingPromise := None\<rparr>
      = addFromDomainsetPromise st source"
    by (rule update_pending_same)
  with assms show ?thesis
    by (simp add: done_op_def addFromDomainset_def enqueue_def addFromDomainsetPromise_frame)
qed

subsection \<open>The classifier\<close>



lemma unrecognised_line:
  assumes "unrecognised line"
  shows "addFromRuleset_line st line = Inr (st\<lparr>otherRules := otherRules st @ [line]\<rparr>)"
proof -
  obtain ty others where split: "js_split CHR '','' line = ty # others"
    using js_split_nonempty [of "CHR '',''" line] by (cases "js_split CHR '','' line") auto
  have first: "at_index (ty # others) 0 = Some ty"
    by (simp add: at_index_def)
  from assms have "ty \<notin> set supported_types"
    by (simp add: unrecognised_def split)
  then show ?thesis
    unfolding addFromRuleset_line_def split Let_def first
    by (simp add: supported_types_def)
qed

lemma fields_of_line:
  assumes "js_split CHR '','' line = ty # v # rest"
  shows "at_index (js_split CHR '','' line) 0 = Some ty"
    and "at_index (js_split CHR '','' line) 1 = Some v"
    and "at_index (js_split CHR '','' line) 2 = at_index rest 0"
    and "drop 1 (js_split CHR '','' line) = v # rest"
  using assms by (simp_all add: at_index_def)

subsection \<open>URL-REGEX lines\<close>

lemma split_url_regex:
  "js_split CHR '','' (''URL-REGEX,'' @ rest) = ''URL-REGEX'' # js_split CHR '','' rest"
  using js_split_prefix [of "CHR '',''" "''URL-REGEX''" rest] by simp

lemma url_regex_line:
  "addFromRuleset_line st (''URL-REGEX,'' @ rest) =
     Inr (st\<lparr>urlRegex := insert (Some rest) (urlRegex st)\<rparr>)"
proof -
  have first: "at_index (''URL-REGEX'' # js_split CHR '','' rest) 0 = Some ''URL-REGEX''"
    by (simp add: at_index_def)
  have joined: "js_join '','' (js_split CHR '','' rest) = rest"
    by (rule js_join_split)
  show ?thesis
    unfolding addFromRuleset_line_def split_url_regex Let_def first
    by (simp add: joined)
qed

subsection \<open>Domain sets\<close>

lemma trie_exact_append: "trie_exact (t @ u) = trie_exact t \<union> trie_exact u"
  by (simp add: trie_exact_def map_filter_def)

lemma trie_suffix_append: "trie_suffix (t @ u) = trie_suffix t \<union> trie_suffix u"
  by (simp add: trie_suffix_def map_filter_def)

lemma trie_exact_domainset:
  "trie_exact
     (map (\<lambda>line. if at_index line 0 = Some CHR ''.''
                  then Add (Some line) (Some True) (Some (JsNum 1)) None
                  else Add (Some line) (Some False) (Some JsNull) (Some 0)) source)
   = set (filter (\<lambda>line. at_index line 0 \<noteq> Some CHR ''.'') source)"
  by (induction source) (auto simp: trie_exact_def map_filter_def)

lemma trie_suffix_domainset:
  "trie_suffix
     (map (\<lambda>line. if at_index line 0 = Some CHR ''.''
                  then Add (Some line) (Some True) (Some (JsNum 1)) None
                  else Add (Some line) (Some False) (Some JsNull) (Some 0)) source)
   = set (map (drop 1) (filter (\<lambda>line. at_index line 0 = Some CHR ''.'') source))"
  by (induction source) (auto simp: trie_suffix_def map_filter_def)

subsection \<open>The classifier, type by type\<close>

lemma unrecognised_iff:
  "unrecognised line = (at_index (js_split CHR '','' line) 0 \<notin> Some ` set supported_types)"
proof -
  obtain ty others where split: "js_split CHR '','' line = ty # others"
    using js_split_nonempty [of "CHR '',''" line] by (cases "js_split CHR '','' line") auto
  show ?thesis
    unfolding unrecognised_def split by (auto simp: at_index_def)
qed

lemma line_type_cases:
  obtains "at_index (js_split CHR '','' line) 0 = Some ''DOMAIN''"
  | "at_index (js_split CHR '','' line) 0 = Some ''DOMAIN-SUFFIX''"
  | "at_index (js_split CHR '','' line) 0 = Some ''DOMAIN-KEYWORD''"
  | "at_index (js_split CHR '','' line) 0 = Some ''DOMAIN-WILDCARD''"
  | "at_index (js_split CHR '','' line) 0 = Some ''USER-AGENT''"
  | "at_index (js_split CHR '','' line) 0 = Some ''PROCESS-NAME''"
  | "at_index (js_split CHR '','' line) 0 = Some ''URL-REGEX''"
  | "at_index (js_split CHR '','' line) 0 = Some ''IP-CIDR''"
  | "at_index (js_split CHR '','' line) 0 = Some ''IP-CIDR6''"
  | "at_index (js_split CHR '','' line) 0 = Some ''IP-ASN''"
  | "at_index (js_split CHR '','' line) 0 = Some ''GEOIP''"
  | "at_index (js_split CHR '','' line) 0 = Some ''SRC-IP''"
  | "at_index (js_split CHR '','' line) 0 = Some ''SRC-PORT''"
  | "at_index (js_split CHR '','' line) 0 = Some ''DEST-PORT''"
  | "unrecognised line"
  unfolding unrecognised_iff supported_types_def by auto

text \<open>What a line does, by its first field; the second field may be missing.\<close>

lemma line_step:
  fixes st :: "'p RuleOutput" and line :: string
  defines "ty \<equiv> at_index (js_split CHR '','' line) 0"
    and "v \<equiv> at_index (js_split CHR '','' line) 1"
    and "arg \<equiv> at_index (js_split CHR '','' line) 2"
  shows "ty = Some ''DOMAIN'' \<Longrightarrow> addFromRuleset_line st line =
      Inr (st\<lparr>domainTrie := domainTrie st @ [Add v (Some False) (Some JsNull) (Some 0)]\<rparr>)"
    and "ty = Some ''DOMAIN-SUFFIX'' \<Longrightarrow> addFromRuleset_line st line =
      Inr (st\<lparr>domainTrie := domainTrie st @ [Add v (Some True) (Some (JsNum 0)) None]\<rparr>)"
    and "ty = Some ''DOMAIN-KEYWORD'' \<Longrightarrow> addFromRuleset_line st line =
      Inr (st\<lparr>domainKeywords := insert v (domainKeywords st)\<rparr>)"
    and "ty = Some ''DOMAIN-WILDCARD'' \<Longrightarrow> addFromRuleset_line st line =
      Inr (st\<lparr>domainWildcard := insert v (domainWildcard st)\<rparr>)"
    and "ty = Some ''USER-AGENT'' \<Longrightarrow> addFromRuleset_line st line =
      Inr (st\<lparr>userAgent := insert v (userAgent st)\<rparr>)"
    and "ty = Some ''PROCESS-NAME'' \<Longrightarrow> addFromRuleset_line st line =
      (case v of
         None \<Rightarrow> Inl TypeError
       | Some x \<Rightarrow>
           Inr (if CHR ''/'' \<in> set x \<or> CHR 0x5C \<in> set x
                then st\<lparr>processPath := insert v (processPath st)\<rparr>
                else st\<lparr>processName := insert v (processName st)\<rparr>))"
    and "ty = Some ''URL-REGEX'' \<Longrightarrow> addFromRuleset_line st line =
      Inr (st\<lparr>urlRegex :=
        insert (Some (js_join '','' (drop 1 (js_split CHR '','' line)))) (urlRegex st)\<rparr>)"
    and "ty = Some ''IP-CIDR'' \<Longrightarrow> addFromRuleset_line st line =
      Inr (if arg = Some ''no-resolve''
           then st\<lparr>ipcidrNoResolve := insert v (ipcidrNoResolve st)\<rparr>
           else st\<lparr>ipcidr := insert v (ipcidr st)\<rparr>)"
    and "ty = Some ''IP-CIDR6'' \<Longrightarrow> addFromRuleset_line st line =
      Inr (if arg = Some ''no-resolve''
           then st\<lparr>ipcidr6NoResolve := insert v (ipcidr6NoResolve st)\<rparr>
           else st\<lparr>ipcidr6 := insert v (ipcidr6 st)\<rparr>)"
    and "ty = Some ''IP-ASN'' \<Longrightarrow> addFromRuleset_line st line =
      Inr (if arg = Some ''no-resolve''
           then st\<lparr>ipasnNoResolve := insert v (ipasnNoResolve st)\<rparr>
           else st\<lparr>ipasn := insert v (ipasn st)\<rparr>)"
    and "ty = Some ''GEOIP'' \<Longrightarrow> addFromRuleset_line st line =
      Inr (if arg = Some ''no-resolve''
           then st\<lparr>groipNoResolve := insert v (groipNoResolve st)\<rparr>
           else st\<lparr>geoip := insert v (geoip st)\<rparr>)"
    and "ty = Some ''SRC-IP'' \<Longrightarrow> addFromRuleset_line st line =
      Inr (st\<lparr>sourceIpOrCidr := insert v (sourceIpOrCidr st)\<rparr>)"
    and "ty = Some ''SRC-PORT'' \<Longrightarrow> addFromRuleset_line st line =
      Inr (st\<lparr>sourcePort := insert v (sourcePort st)\<rparr>)"
    and "ty = Some ''DEST-PORT'' \<Longrightarrow> addFromRuleset_line st line =
      Inr (st\<lparr>destPort := insert v (destPort st)\<rparr>)"
  unfolding addFromRuleset_line_def Let_def ty_def [symmetric] v_def [symmetric]
    arg_def [symmetric]
  by (simp_all add: trie_add_def addDomainSuffix_def addDomainKeyword_def js_includes_def
      split: option.split)


subsection \<open>Sets of the instance before and after an operation\<close>




lemma sets_within_refl: "sets_within a a"
  by (simp add: sets_within_def set_buckets_def)

lemma sets_within_trans: "sets_within a b \<Longrightarrow> sets_within b c \<Longrightarrow> sets_within a c"
  unfolding sets_within_def set_buckets_def by auto

lemma trie_exact_snoc:
  "trie_exact (t @ [c]) =
     trie_exact t \<union> (if is_suffix_call c then {} else set_option (stored_domain c))"
  by (cases "stored_domain c") (simp_all add: trie_exact_def map_filter_def)

lemma trie_suffix_snoc:
  "trie_suffix (t @ [c]) =
     trie_suffix t \<union> (if is_suffix_call c then set_option (stored_domain c) else {})"
  by (cases "stored_domain c") (simp_all add: trie_suffix_def map_filter_def)

lemma line_grows:
  assumes "addFromRuleset_line st line = Inr st1"
  shows "sets_within st st1"
  using assms
  by (cases line rule: line_type_cases)
    (clarsimp simp: line_step unrecognised_line sets_within_def set_buckets_def
      trie_exact_snoc trie_suffix_snoc subset_insertI split: option.splits if_splits)+


lemma source_grows:
  "addFromRulesetPromise st source = Inr st1 \<Longrightarrow> sets_within st st1"
proof (induction source arbitrary: st)
  case Nil
  then show ?case by (simp add: sets_within_refl)
next
  case (Cons line source)
  then obtain mid where one: "addFromRuleset_line st line = Inr mid"
    and more: "addFromRulesetPromise mid source = Inr st1"
    by (auto split: sum.splits)
  show ?case
    using line_grows [OF one] Cons.IH [OF more] by (rule sets_within_trans)
qed



subsection \<open>Closed forms of the bulk adders of domains\<close>

lemma bulkAddDomain_eq:
  "bulkAddDomain st ds =
     st\<lparr>domainTrie := domainTrie st @
        concat (map (\<lambda>d. case d of
                            None \<Rightarrow> []
                          | Some x \<Rightarrow> [Add (Some x) (Some False) (Some JsNull) (Some 0)]) ds)\<rparr>"
  by (induction ds arbitrary: st) (simp_all add: trie_add_def split: option.split)

lemma bulkAddDomainSuffix_eq:
  "bulkAddDomainSuffix st ds =
     st\<lparr>domainTrie := domainTrie st @
        map (\<lambda>d. Add (Some d) (Some True)
                    (Some (JsNum (if lineFromDot_default d then 1 else 0))) None) ds\<rparr>"
  by (induction ds arbitrary: st) (simp_all add: trie_add_def addDomainSuffix_def)

subsection \<open>The chain of queued ingestions\<close>

lemma run_task_frame:
  "run_task (st\<lparr>pendingPromise := x\<rparr>) t =
     (case run_task st t of Inl e \<Rightarrow> Inl e | Inr s \<Rightarrow> Inr (s\<lparr>pendingPromise := x\<rparr>))"
  by (cases t) (simp_all add: addFromDomainsetPromise_frame addFromRulesetPromise_frame)

lemma run_chain_frame:
  "run_chain (st\<lparr>pendingPromise := x\<rparr>) chain =
     (case run_chain st chain of Inl e \<Rightarrow> Inl e | Inr s \<Rightarrow> Inr (s\<lparr>pendingPromise := x\<rparr>))"
  by (induction chain arbitrary: st) (simp_all add: run_task_frame split: sum.split)

lemma run_task_pending:
  "run_task st t = Inr s \<Longrightarrow> pendingPromise s = pendingPromise st"
  by (cases t) (auto simp: addFromDomainsetPromise_pending dest: addFromRulesetPromise_pending)

lemma run_chain_pending:
  "run_chain st chain = Inr s \<Longrightarrow> pendingPromise s = pendingPromise st"
proof (induction chain arbitrary: st)
  case Nil
  then show ?case by simp
next
  case (Cons t chain)
  then show ?case
    by (auto split: sum.splits dest: run_task_pending)
qed

text \<open>
  \<open>done()\<close> on an instance with a chain: the chain run on the instance, as if nothing
  were pending.
\<close>

lemma done_op_chain:
  assumes "pendingPromise st = Some chain"
  shows "done_op st = run_chain (st\<lparr>pendingPromise := None\<rparr>) chain"
proof -
  have same: "st\<lparr>pendingPromise := Some chain\<rparr> = st"
    using assms by (rule update_pending_same)
  have frame: "run_chain st chain =
      (case run_chain (st\<lparr>pendingPromise := None\<rparr>) chain of
         Inl e \<Rightarrow> Inl e
       | Inr s \<Rightarrow> Inr (s\<lparr>pendingPromise := Some chain\<rparr>))"
    using run_chain_frame [where st = "st\<lparr>pendingPromise := None\<rparr>" and x = "Some chain"
        and chain = chain]
    by (simp add: same)
  show ?thesis
  proof (cases "run_chain (st\<lparr>pendingPromise := None\<rparr>) chain")
    case (Inl e)
    with assms frame show ?thesis by (simp add: done_op_def)
  next
    case (Inr s)
    then have "pendingPromise s = None"
      using run_chain_pending by fastforce
    then have "s\<lparr>pendingPromise := None\<rparr> = s"
      by (rule update_pending_same)
    with assms frame Inr show ?thesis by (simp add: done_op_def)
  qed
qed

lemma run_chain_append:
  "run_chain st (c1 @ c2) =
     (case run_chain st c1 of Inl e \<Rightarrow> Inl e | Inr s \<Rightarrow> run_chain s c2)"
  by (induction c1 arbitrary: st) (simp_all split: sum.split)

subsection \<open>An operation performed twice\<close>







lemma enqueue_once:
  "pendingPromise st = None \<Longrightarrow> done_op (enqueue st t) = run_chain st [t]"
  using done_op_chain [of "enqueue st t" "[t]"]
  by (simp add: enqueue_def update_pending_same)



subsection \<open>Empty strings in the buckets\<close>



lemma no_empty_pending [simp]:
  "no_empty_string (st\<lparr>pendingPromise := x\<rparr>) = no_empty_string st"
  by (simp add: no_empty_string_def set_buckets_def)



















section \<open>Properties of the preprocessed view and of writing\<close>

lemma get_preprocessed_cached:
  "preprocessed st = Some v \<Longrightarrow> get_preprocessed preprocess st = Inr (Some v, st)"
  by (simp add: get_preprocessed_def runPreprocess_def)

lemma read_times_cached:
  "preprocessed st = Some v \<Longrightarrow> read_times preprocess n st = Inr (replicate n (Some v), st)"
  by (induction n) (simp_all add: get_preprocessed_cached)

lemma get_preprocessed_first:
  "pendingPromise st = None \<Longrightarrow> preprocessed st = None \<Longrightarrow>
   get_preprocessed preprocess st =
     Inr (preprocess st,
          st\<lparr>preprocessed := preprocess st, preprocess_calls := Suc (preprocess_calls st)\<rparr>)"
  by (simp add: get_preprocessed_def runPreprocess_def guardPendingPromise_def)

lemma read_times_null:
  "\<forall>s. preprocess s = None \<Longrightarrow> pendingPromise st = None \<Longrightarrow> preprocessed st = None \<Longrightarrow>
   read_times preprocess n st =
     Inr (replicate n None, st\<lparr>preprocess_calls := preprocess_calls st + n\<rparr>)"
proof (induction n arbitrary: st)
  case 0
  then show ?case by simp
next
  case (Suc n)
  let ?next = "st\<lparr>preprocessed := None, preprocess_calls := Suc (preprocess_calls st)\<rparr>"
  have first: "get_preprocessed preprocess st = Inr (None, ?next)"
    using Suc.prems by (simp add: get_preprocessed_first)
  have "read_times preprocess n ?next =
      Inr (replicate n None, ?next\<lparr>preprocess_calls := preprocess_calls ?next + n\<rparr>)"
    using Suc.prems by (intro Suc.IH) simp_all
  with first Suc.prems(3) show ?case by simp
qed

lemma line_keeps_rest:
  assumes "addFromRuleset_line st line = Inr st1"
  shows "title st1 = title st \<and> description st1 = description st
    \<and> preprocessed st1 = preprocessed st \<and> preprocess_calls st1 = preprocess_calls st"
  using assms
  by (cases line rule: line_type_cases)
    (auto simp: line_step unrecognised_line split: option.splits if_splits)

lemma source_keeps_rest:
  "addFromRulesetPromise st source = Inr st1 \<Longrightarrow>
   title st1 = title st \<and> description st1 = description st
   \<and> preprocessed st1 = preprocessed st \<and> preprocess_calls st1 = preprocess_calls st"
proof (induction source arbitrary: st)
  case Nil
  then show ?case by simp
next
  case (Cons line source)
  then obtain mid where one: "addFromRuleset_line st line = Inr mid"
    and more: "addFromRulesetPromise mid source = Inr st1"
    by (auto split: sum.splits)
  show ?case
    using line_keeps_rest [OF one] Cons.IH [OF more] by simp
qed

lemma chain_keeps_rest:
  "run_chain st chain = Inr st1 \<Longrightarrow>
   title st1 = title st \<and> description st1 = description st
   \<and> preprocessed st1 = preprocessed st \<and> preprocess_calls st1 = preprocess_calls st"
proof (induction chain arbitrary: st)
  case Nil
  then show ?case by simp
next
  case (Cons t chain)
  then obtain mid where one: "run_task st t = Inr mid" and more: "run_chain mid chain = Inr st1"
    by (auto split: sum.splits)
  have "title mid = title st \<and> description mid = description st
      \<and> preprocessed mid = preprocessed st \<and> preprocess_calls mid = preprocess_calls st"
    using one
    by (cases t) (auto simp: addFromDomainsetPromise_eq dest: source_keeps_rest)
  with Cons.IH [OF more] show ?case by simp
qed

lemma done_keeps_rest:
  "done_op st = Inr st1 \<Longrightarrow>
   title st1 = title st \<and> description st1 = description st
   \<and> preprocessed st1 = preprocessed st \<and> preprocess_calls st1 = preprocess_calls st"
  by (auto simp: done_op_def split: option.splits sum.splits dest: chain_keeps_rest)

lemma op_keeps_cache:
  "preprocessed (apply_op st op) = preprocessed st
   \<and> preprocess_calls (apply_op st op) = preprocess_calls st"
  by (cases op)
    (simp_all add: addDomain_def bulkAddDomain_eq addDomainSuffix_def bulkAddDomainSuffix_eq
      addDomainKeyword_def addFromDomainset_def addFromRuleset_def enqueue_def bulkAddCIDR4_eq
      bulkAddCIDR4NoResolve_eq bulkAddCIDR6_eq bulkAddCIDR6NoResolve_eq)

lemma ops_keep_cache:
  "preprocessed (foldl apply_op st ops) = preprocessed st
   \<and> preprocess_calls (foldl apply_op st ops) = preprocess_calls st"
  by (induction ops arbitrary: st) (simp_all add: op_keeps_cache)

lemma run_ops_keeps_cache:
  "run_ops st ops = Inr st1 \<Longrightarrow>
   preprocessed st1 = preprocessed st \<and> preprocess_calls st1 = preprocess_calls st"
  unfolding run_ops_def using done_keeps_rest [of "foldl apply_op st ops" st1]
  by (simp add: ops_keep_cache)

text \<open>
  C7, for a view that is not \<open>null\<close>. On an instance with nothing pending and nothing
  cached, whose \<open>preprocess()\<close> returns a view \<open>v\<close>, any number of reads in a row all return
  \<open>v\<close>, and \<open>preprocess()\<close> has run exactly once after them. Whenever a view is cached, a
  read returns it and leaves the instance as it is, the count of calls included; and the
  adding operations and \<open>done()\<close> leave the cached view and the count as they are. When
  \<open>preprocess()\<close> returns \<open>null\<close> nothing is cached, and every read runs it again.
\<close>

theorem preprocessed_view_computed_once:
  "(pendingPromise st = None \<and> preprocessed st = None \<and> preprocess st = Some v \<longrightarrow>
      read_times preprocess (Suc n) st =
        Inr (replicate (Suc n) (Some v),
             st\<lparr>preprocessed := Some v, preprocess_calls := Suc (preprocess_calls st)\<rparr>))
   \<and> (preprocessed st = Some v \<longrightarrow> get_preprocessed preprocess st = Inr (Some v, st))
   \<and> (\<forall>st'. run_ops st ops = Inr st' \<longrightarrow>
        preprocessed st' = preprocessed st \<and> preprocess_calls st' = preprocess_calls st)
   \<and> ((\<forall>s. preprocess s = None) \<and> pendingPromise st = None \<and> preprocessed st = None \<longrightarrow>
        read_times preprocess n st =
          Inr (replicate n None, st\<lparr>preprocess_calls := preprocess_calls st + n\<rparr>))"
proof (intro conjI allI impI)
  assume first: "pendingPromise st = None \<and> preprocessed st = None \<and> preprocess st = Some v"
  let ?next = "st\<lparr>preprocessed := Some v, preprocess_calls := Suc (preprocess_calls st)\<rparr>"
  have "get_preprocessed preprocess st = Inr (Some v, ?next)"
    using first by (simp add: get_preprocessed_first)
  moreover have "read_times preprocess n ?next = Inr (replicate n (Some v), ?next)"
    by (rule read_times_cached) simp
  ultimately show "read_times preprocess (Suc n) st = Inr (replicate (Suc n) (Some v), ?next)"
    by simp
next
  assume "preprocessed st = Some v"
  then show "get_preprocessed preprocess st = Inr (Some v, st)"
    by (rule get_preprocessed_cached)
next
  fix st'
  assume "run_ops st ops = Inr st'"
  then have "preprocessed st' = preprocessed st \<and> preprocess_calls st' = preprocess_calls st"
    by (rule run_ops_keeps_cache)
  then show "preprocessed st' = preprocessed st" and "preprocess_calls st' = preprocess_calls st"
    by simp_all
next
  assume "(\<forall>s. preprocess s = None) \<and> pendingPromise st = None \<and> preprocessed st = None"
  then show "read_times preprocess n st =
      Inr (replicate n None, st\<lparr>preprocess_calls := preprocess_calls st + n\<rparr>)"
    by (simp add: read_times_null)
qed

theorem preprocessed_view_computed_once_witness:
  "pendingPromise (new_RuleOutput :: nat RuleOutput) = None
   \<and> preprocessed (new_RuleOutput :: nat RuleOutput) = None
   \<and> read_times (\<lambda>st. Some (length (otherRules st))) (Suc (Suc (Suc 0)))
        (new_RuleOutput :: nat RuleOutput)
       = Inr ([Some 0, Some 0, Some 0], new_RuleOutput\<lparr>preprocessed := Some 0, preprocess_calls := 1\<rparr>)
   \<and> get_preprocessed (\<lambda>st. Some (length (otherRules st)))
        (new_RuleOutput\<lparr>preprocessed := Some 0, preprocess_calls := 1\<rparr> :: nat RuleOutput)
       = Inr (Some 0, new_RuleOutput\<lparr>preprocessed := Some 0, preprocess_calls := 1\<rparr>)
   \<and> run_ops (new_RuleOutput\<lparr>preprocessed := Some 0, preprocess_calls := 1\<rparr> :: nat RuleOutput)
         [AddFromRuleset [''FINAL,DIRECT'']]
       = Inr (new_RuleOutput\<lparr>preprocessed := Some 0, preprocess_calls := 1,
                otherRules := [''FINAL,DIRECT'']\<rparr>)
   \<and> preprocessed (new_RuleOutput\<lparr>preprocessed := Some 0, preprocess_calls := 1,
                otherRules := [''FINAL,DIRECT'']\<rparr> :: nat RuleOutput) = Some 0
   \<and> read_times (\<lambda>st. None) (Suc (Suc 0)) (new_RuleOutput :: nat RuleOutput)
       = Inr ([None, None], new_RuleOutput\<lparr>preprocess_calls := 2\<rparr>)"
proof -
  let ?new = "new_RuleOutput :: nat RuleOutput"
  let ?count = "\<lambda>st :: nat RuleOutput. Some (length (otherRules st))"
  let ?read = "?new\<lparr>preprocessed := Some 0, preprocess_calls := 1\<rparr>"
  have fresh: "pendingPromise ?new = None" "preprocessed ?new = None"
    "preprocess_calls ?new = 0" "?count ?new = Some 0"
    by (simp_all add: new_RuleOutput_def)
  have cached: "preprocessed ?read = Some 0"
    by simp
  have one: "read_times ?count (Suc (Suc (Suc 0))) ?new = Inr ([Some 0, Some 0, Some 0], ?read)"
    using preprocessed_view_computed_once
      [where st = ?new and preprocess = ?count and v = 0 and n = "Suc (Suc 0)", THEN conjunct1]
      fresh
    by simp
  have two: "get_preprocessed ?count ?read = Inr (Some 0, ?read)"
    using preprocessed_view_computed_once
      [where st = ?read and preprocess = ?count and v = 0, THEN conjunct2, THEN conjunct1]
      cached
    by simp
  have three: "read_times (\<lambda>st. None) (Suc (Suc 0)) ?new
      = Inr ([None, None], ?new\<lparr>preprocess_calls := 2\<rparr>)"
    using preprocessed_view_computed_once
      [where st = ?new and preprocess = "\<lambda>st. None" and n = "Suc (Suc 0)",
        THEN conjunct2, THEN conjunct2, THEN conjunct2]
      fresh
    by simp
  let ?more = "?read\<lparr>otherRules := [''FINAL,DIRECT'']\<rparr>"
  have final: "addFromRuleset_line st ''FINAL,DIRECT''
      = Inr (st\<lparr>otherRules := otherRules st @ [''FINAL,DIRECT'']\<rparr>)"
    for st :: "nat RuleOutput"
    by (simp add: addFromRuleset_line_def at_index_def)
  have four: "run_ops ?read [AddFromRuleset [''FINAL,DIRECT'']] = Inr ?more"
    by (simp add: run_ops_def done_op_def addFromRuleset_def enqueue_def final
        new_RuleOutput_def)
  have five: "preprocessed ?more = Some 0"
    using preprocessed_view_computed_once
      [where st = ?read and ops = "[AddFromRuleset [''FINAL,DIRECT'']]",
        THEN conjunct2, THEN conjunct2, THEN conjunct1, rule_format, OF four]
    by simp
  from fresh(1,2) one two three four five show ?thesis by blast
qed

text \<open>
  C7 as stated fails for a subclass whose \<open>preprocess()\<close> returns \<open>null\<close>, which its return
  type allows: the field \<open>$$preprocessed\<close> stays \<open>null\<close>, and the second read of a new
  instance runs \<open>preprocess()\<close> a second time.
\<close>

theorem preprocess_returning_null_runs_again:
  "get_preprocessed (\<lambda>st. None) (new_RuleOutput :: unit RuleOutput)
     = Inr (None, new_RuleOutput\<lparr>preprocess_calls := 1\<rparr>)
   \<and> get_preprocessed (\<lambda>st. None) (new_RuleOutput\<lparr>preprocess_calls := 1\<rparr> :: unit RuleOutput)
     = Inr (None, new_RuleOutput\<lparr>preprocess_calls := 2\<rparr>)"
  by (simp add: get_preprocessed_def runPreprocess_def guardPendingPromise_def
      new_RuleOutput_def)

subsection \<open>Precondition violations\<close>

text \<open>
  C6, for a view that is not cached yet. Reading \<open>$preprocessed\<close> while an ingestion is
  pending and no view is cached raises the error that asks for \<open>done()\<close>. \<open>write\<close> and
  \<open>writeClash\<close> on an instance without a title raise \<open>Missing title\<close>, and with a title
  but without a description \<open>Missing description\<close>, once the pending ingestion has
  completed; when the ingestion itself raises, they raise its error. In each of these
  cases nothing is published.
\<close>

theorem precondition_violations_raise:
  "(pendingPromise st \<noteq> None \<and> preprocessed st = None \<longrightarrow>
      get_preprocessed preprocess st =
        Inl (Error ''You should call done() before calling this method''))
   \<and> (title st = None \<longrightarrow>
        write_op publish st =
          (case done_op st of Inl e \<Rightarrow> Inl e | Inr st' \<Rightarrow> Inl (InvariantError ''Missing title''))
        \<and> writeClash publish st =
          (case done_op st of Inl e \<Rightarrow> Inl e | Inr st' \<Rightarrow> Inl (InvariantError ''Missing title'')))
   \<and> (title st \<noteq> None \<and> description st = None \<longrightarrow>
        write_op publish st =
          (case done_op st of
             Inl e \<Rightarrow> Inl e
           | Inr st' \<Rightarrow> Inl (InvariantError ''Missing description''))
        \<and> writeClash publish st =
          (case done_op st of
             Inl e \<Rightarrow> Inl e
           | Inr st' \<Rightarrow> Inl (InvariantError ''Missing description'')))"
proof (intro conjI impI)
  assume "pendingPromise st \<noteq> None \<and> preprocessed st = None"
  then show "get_preprocessed preprocess st =
      Inl (Error ''You should call done() before calling this method'')"
    by (simp add: get_preprocessed_def runPreprocess_def guardPendingPromise_def)
next
  assume none: "title st = None"
  show "write_op publish st =
      (case done_op st of Inl e \<Rightarrow> Inl e | Inr st' \<Rightarrow> Inl (InvariantError ''Missing title''))"
    using none
    by (auto simp: write_op_def invariant_def split: sum.splits dest: done_keeps_rest)
  show "writeClash publish st =
      (case done_op st of Inl e \<Rightarrow> Inl e | Inr st' \<Rightarrow> Inl (InvariantError ''Missing title''))"
    using none
    by (auto simp: writeClash_def invariant_def split: sum.splits dest: done_keeps_rest)
next
  assume some: "title st \<noteq> None \<and> description st = None"
  show "write_op publish st =
      (case done_op st of
         Inl e \<Rightarrow> Inl e
       | Inr st' \<Rightarrow> Inl (InvariantError ''Missing description''))"
    using some
    by (auto simp: write_op_def invariant_def split: sum.splits option.splits
        dest: done_keeps_rest)
  show "writeClash publish st =
      (case done_op st of
         Inl e \<Rightarrow> Inl e
       | Inr st' \<Rightarrow> Inl (InvariantError ''Missing description''))"
    using some
    by (auto simp: writeClash_def invariant_def split: sum.splits option.splits
        dest: done_keeps_rest)
qed

theorem precondition_violations_raise_witness:
  "pendingPromise (addFromRuleset (new_RuleOutput :: unit RuleOutput) [''DOMAIN,example.com'']) \<noteq> None
   \<and> preprocessed (addFromRuleset (new_RuleOutput :: unit RuleOutput) [''DOMAIN,example.com'']) = None
   \<and> get_preprocessed (\<lambda>st. Some ())
        (addFromRuleset (new_RuleOutput :: unit RuleOutput) [''DOMAIN,example.com''])
       = Inl (Error ''You should call done() before calling this method'')
   \<and> title (new_RuleOutput :: unit RuleOutput) = None
   \<and> write_op (\<lambda>st t d. t # d) (new_RuleOutput :: unit RuleOutput)
       = Inl (InvariantError ''Missing title'')
   \<and> title (withTitle (new_RuleOutput :: unit RuleOutput) ''Rules'') \<noteq> None
   \<and> description (withTitle (new_RuleOutput :: unit RuleOutput) ''Rules'') = None
   \<and> writeClash (\<lambda>st t d. t # d) (withTitle (new_RuleOutput :: unit RuleOutput) ''Rules'')
       = Inl (InvariantError ''Missing description'')"
proof -
  let ?new = "new_RuleOutput :: unit RuleOutput"
  let ?queued = "addFromRuleset ?new [''DOMAIN,example.com'']"
  let ?titled = "withTitle ?new ''Rules''"
  let ?publish = "\<lambda>(st :: unit RuleOutput) (t :: string) (d :: string list). t # d"
  have queued: "pendingPromise ?queued \<noteq> None" "preprocessed ?queued = None"
    by (simp_all add: addFromRuleset_def enqueue_def new_RuleOutput_def)
  have untitled: "title ?new = None" and ready: "done_op ?new = Inr ?new"
    by (simp_all add: new_RuleOutput_def done_op_def)
  have titled: "title ?titled \<noteq> None" "description ?titled = None"
    and ready': "done_op ?titled = Inr ?titled"
    by (simp_all add: withTitle_def new_RuleOutput_def done_op_def)
  have one: "get_preprocessed (\<lambda>st. Some ()) ?queued
      = Inl (Error ''You should call done() before calling this method'')"
    using precondition_violations_raise
      [where st = ?queued and preprocess = "\<lambda>st. Some ()", THEN conjunct1] queued
    by simp
  have two: "write_op ?publish ?new = Inl (InvariantError ''Missing title'')"
    using precondition_violations_raise
      [where st = ?new and publish = ?publish, THEN conjunct2, THEN conjunct1] untitled
    by (simp add: ready)
  have three: "writeClash ?publish ?titled = Inl (InvariantError ''Missing description'')"
    using precondition_violations_raise
      [where st = ?titled and publish = ?publish, THEN conjunct2, THEN conjunct2] titled
    by (simp add: ready')
  from queued one untitled two titled three show ?thesis by blast
qed

text \<open>
  C6 as stated fails once a view is cached: the guard is inside the test for an empty
  cache. A new instance is read (the view is computed and cached), then a rule set is
  queued, so that an ingestion is pending; the next read returns the cached view and
  raises nothing.
\<close>

theorem cached_view_is_read_while_pending:
  "get_preprocessed (\<lambda>st. Some ()) (new_RuleOutput :: unit RuleOutput)
     = Inr (Some (), new_RuleOutput\<lparr>preprocessed := Some (), preprocess_calls := 1\<rparr>)
   \<and> pendingPromise
        (addFromRuleset (new_RuleOutput\<lparr>preprocessed := Some (), preprocess_calls := 1\<rparr> :: unit RuleOutput)
           [''DOMAIN,example.com''])
       = Some [FromRuleset [''DOMAIN,example.com'']]
   \<and> get_preprocessed (\<lambda>st. Some ())
        (addFromRuleset (new_RuleOutput\<lparr>preprocessed := Some (), preprocess_calls := 1\<rparr> :: unit RuleOutput)
           [''DOMAIN,example.com''])
       = Inr (Some (),
              addFromRuleset (new_RuleOutput\<lparr>preprocessed := Some (), preprocess_calls := 1\<rparr>)
                [''DOMAIN,example.com''])"
  by (simp add: get_preprocessed_def runPreprocess_def guardPendingPromise_def
      addFromRuleset_def enqueue_def new_RuleOutput_def)

section \<open>Properties of ingestion through the chain\<close>

subsection \<open>Queueing on an instance that has ingestions pending\<close>

text \<open>
  Queueing an ingestion and awaiting \<open>done()\<close> is awaiting what was pending before and
  then running the queued ingestion on the result, whatever was pending; when an
  earlier ingestion raises, the queued one does not run.
\<close>

lemma done_after_enqueue:
  "done_op (enqueue st t) =
     (case done_op st of Inl e \<Rightarrow> Inl e | Inr s \<Rightarrow> run_task s t)"
proof (cases "pendingPromise st")
  case None
  have one: "run_chain st [t] = run_task st t"
    by (cases "run_task st t") simp_all
  have before: "done_op st = Inr st"
    using None by (simp add: done_op_def)
  have "done_op (enqueue st t) = run_chain st [t]"
    using None by (rule enqueue_once)
  then show ?thesis
    by (simp only: one before sum.case)
next
  case (Some chain)
  have pending: "pendingPromise (enqueue st t) = Some (chain @ [t])"
    using Some by (simp add: enqueue_def)
  have same: "(enqueue st t)\<lparr>pendingPromise := None\<rparr> = st\<lparr>pendingPromise := None\<rparr>"
    by (simp add: enqueue_def)
  have "done_op (enqueue st t) = run_chain (st\<lparr>pendingPromise := None\<rparr>) (chain @ [t])"
    using done_op_chain [OF pending] by (simp only: same)
  also have "\<dots> =
      (case run_chain (st\<lparr>pendingPromise := None\<rparr>) chain of
         Inl e \<Rightarrow> Inl e
       | Inr s \<Rightarrow> run_task s t)"
    by (simp add: run_chain_append split: sum.split)
  finally show ?thesis
    using done_op_chain [OF Some] by simp
qed

lemma done_after_queued_ruleset:
  "done_op (addFromRuleset st source) =
     (case done_op st of Inl e \<Rightarrow> Inl e | Inr s \<Rightarrow> addFromRulesetPromise s source)"
  by (simp add: addFromRuleset_def done_after_enqueue split: sum.split)

lemma done_after_queued_domainset:
  "done_op (addFromDomainset st source) =
     (case done_op st of
        Inl e \<Rightarrow> Inl e
      | Inr s \<Rightarrow> Inr (addFromDomainsetPromise s source))"
  by (simp add: addFromDomainset_def done_after_enqueue split: sum.split)

lemma done_nothing_pending: "pendingPromise st = None \<Longrightarrow> done_op st = Inr st"
  by (simp add: done_op_def)

subsection \<open>The loops over a source in two parts\<close>

lemma addFromRulesetPromise_append:
  "addFromRulesetPromise st (pre @ post) =
     (case addFromRulesetPromise st pre of
        Inl e \<Rightarrow> Inl e
      | Inr s \<Rightarrow> addFromRulesetPromise s post)"
  by (induction pre arbitrary: st) (simp_all split: sum.split)

lemma addFromRulesetPromise_line_inside:
  "addFromRulesetPromise st (pre @ line # post) =
     (case addFromRulesetPromise st pre of
        Inl e \<Rightarrow> Inl e
      | Inr s \<Rightarrow>
          (case addFromRuleset_line s line of
             Inl e \<Rightarrow> Inl e
           | Inr s' \<Rightarrow> addFromRulesetPromise s' post))"
  by (simp add: addFromRulesetPromise_append split: sum.split)

lemma addFromDomainsetPromise_append:
  "addFromDomainsetPromise st (pre @ post) =
     addFromDomainsetPromise (addFromDomainsetPromise st pre) post"
  by (simp add: addFromDomainsetPromise_eq)

subsection \<open>Several sources queued one after the other\<close>


lemma queued_domainsets:
  assumes "pendingPromise st = None"
  shows "run_ops st (map AddFromDomainset sources) =
     Inr (addFromDomainsetPromise st (concat sources))"
proof (induction sources rule: rev_induct)
  case Nil
  from assms show ?case
    by (simp add: run_ops_def done_nothing_pending)
next
  case (snoc source sources)
  have "run_ops st (map AddFromDomainset (sources @ [source])) =
      done_op (addFromDomainset (foldl apply_op st (map AddFromDomainset sources)) source)"
    by (simp add: run_ops_def)
  also have "\<dots> =
      (case run_ops st (map AddFromDomainset sources) of
         Inl e \<Rightarrow> Inl e
       | Inr s \<Rightarrow> Inr (addFromDomainsetPromise s source))"
    by (simp add: done_after_queued_domainset run_ops_def)
  finally show ?case
    by (simp add: snoc.IH addFromDomainsetPromise_append)
qed

lemma sets_within_urlRegex: "sets_within a b \<Longrightarrow> urlRegex a \<subseteq> urlRegex b"
  by (simp add: sets_within_def set_buckets_def)

subsection \<open>Domain sets through the chain\<close>

text \<open>
  C10. Ingesting a domain set makes one call on the trie for each line, in order, and
  changes nothing else: for a line whose first character is a dot, a suffix call with the
  suffix start offset 1; for every other line, an exact call. By the contract of the trie
  the suffix domains then held are the earlier ones and the dotted lines without their
  leading dot, and the exact domains are the earlier ones and the other lines.
  \<open>addFromDomainset\<close> followed by \<open>done()\<close> is this loop over the whole source, run on
  the instance that the ingestions queued before it leave, whatever they are; when one of
  them raises, \<open>done()\<close> raises its error. On an instance with nothing pending it is the
  loop on the instance itself, and several domain sets queued one after the other are the
  loop over all their lines, in the order of the calls.
\<close>

theorem domainset_lines_suffix_or_exact:
  "addFromDomainsetPromise st source =
     st\<lparr>domainTrie := domainTrie st @
        map (\<lambda>line. if at_index line 0 = Some CHR ''.''
                    then Add (Some line) (Some True) (Some (JsNum 1)) None
                    else Add (Some line) (Some False) (Some JsNull) (Some 0)) source\<rparr>
   \<and> trie_suffix (domainTrie (addFromDomainsetPromise st source)) =
       trie_suffix (domainTrie st) \<union> set (map (drop 1) (filter (\<lambda>line. at_index line 0 = Some CHR ''.'') source))
   \<and> trie_exact (domainTrie (addFromDomainsetPromise st source)) =
       trie_exact (domainTrie st) \<union> set (filter (\<lambda>line. at_index line 0 \<noteq> Some CHR ''.'') source)
   \<and> done_op (addFromDomainset st source) =
       (case done_op st of
          Inl e \<Rightarrow> Inl e
        | Inr s \<Rightarrow> Inr (addFromDomainsetPromise s source))
   \<and> (pendingPromise st = None \<longrightarrow>
        done_op (addFromDomainset st source) = Inr (addFromDomainsetPromise st source))
   \<and> (pendingPromise st = None \<longrightarrow>
        run_ops st (map AddFromDomainset sources) =
          Inr (addFromDomainsetPromise st (concat sources)))"
proof (intro conjI impI)
  show "addFromDomainsetPromise st source =
     st\<lparr>domainTrie := domainTrie st @
        map (\<lambda>line. if at_index line 0 = Some CHR ''.''
                    then Add (Some line) (Some True) (Some (JsNum 1)) None
                    else Add (Some line) (Some False) (Some JsNull) (Some 0)) source\<rparr>"
    by (rule addFromDomainsetPromise_eq)
next
  show "trie_suffix (domainTrie (addFromDomainsetPromise st source)) =
      trie_suffix (domainTrie st) \<union> set (map (drop 1) (filter (\<lambda>line. at_index line 0 = Some CHR ''.'') source))"
    by (simp add: addFromDomainsetPromise_eq trie_suffix_append trie_suffix_domainset)
next
  show "trie_exact (domainTrie (addFromDomainsetPromise st source)) =
      trie_exact (domainTrie st) \<union> set (filter (\<lambda>line. at_index line 0 \<noteq> Some CHR ''.'') source)"
    by (simp add: addFromDomainsetPromise_eq trie_exact_append trie_exact_domainset)
next
  show "done_op (addFromDomainset st source) =
      (case done_op st of
         Inl e \<Rightarrow> Inl e
       | Inr s \<Rightarrow> Inr (addFromDomainsetPromise s source))"
    by (rule done_after_queued_domainset)
next
  assume "pendingPromise st = None"
  then show "done_op (addFromDomainset st source) = Inr (addFromDomainsetPromise st source)"
    by (rule done_after_addFromDomainset)
next
  assume "pendingPromise st = None"
  then show "run_ops st (map AddFromDomainset sources) =
      Inr (addFromDomainsetPromise st (concat sources))"
    by (rule queued_domainsets)
qed

theorem domainset_lines_suffix_or_exact_witness:
  "pendingPromise (new_RuleOutput :: unit RuleOutput) = None
   \<and> done_op (addFromDomainset (new_RuleOutput :: unit RuleOutput) [''.example.com'', ''a.org''])
       = Inr (new_RuleOutput\<lparr>domainTrie :=
           [Add (Some ''.example.com'') (Some True) (Some (JsNum 1)) None,
            Add (Some ''a.org'') (Some False) (Some JsNull) (Some 0)]\<rparr>)
   \<and> trie_suffix (domainTrie (addFromDomainsetPromise (new_RuleOutput :: unit RuleOutput)
         [''.example.com'', ''a.org''])) = {''example.com''}
   \<and> trie_exact (domainTrie (addFromDomainsetPromise (new_RuleOutput :: unit RuleOutput)
         [''.example.com'', ''a.org''])) = {''a.org''}
   \<and> pendingPromise (addFromDomainset (new_RuleOutput :: unit RuleOutput) [''a.org''])
       = Some [FromDomainset [''a.org'']]
   \<and> done_op (addFromDomainset (addFromDomainset (new_RuleOutput :: unit RuleOutput) [''a.org''])
         [''.example.com'', ''b.net''])
       = Inr (new_RuleOutput\<lparr>domainTrie :=
           [Add (Some ''a.org'') (Some False) (Some JsNull) (Some 0),
            Add (Some ''.example.com'') (Some True) (Some (JsNum 1)) None,
            Add (Some ''b.net'') (Some False) (Some JsNull) (Some 0)]\<rparr>)
   \<and> run_ops (new_RuleOutput :: unit RuleOutput)
         (map AddFromDomainset [[''a.org''], [''.example.com'', ''b.net'']])
       = Inr (new_RuleOutput\<lparr>domainTrie :=
           [Add (Some ''a.org'') (Some False) (Some JsNull) (Some 0),
            Add (Some ''.example.com'') (Some True) (Some (JsNum 1)) None,
            Add (Some ''b.net'') (Some False) (Some JsNull) (Some 0)]\<rparr>)"
proof -
  let ?new = "new_RuleOutput :: unit RuleOutput"
  let ?first = "addFromDomainset ?new [''a.org'']"
  note inst = domainset_lines_suffix_or_exact [of ?new "[''.example.com'', ''a.org'']"]
  have pending: "pendingPromise ?new = None"
    by (simp add: new_RuleOutput_def)
  have run: "done_op (addFromDomainset ?new [''.example.com'', ''a.org''])
      = Inr (?new\<lparr>domainTrie :=
           [Add (Some ''.example.com'') (Some True) (Some (JsNum 1)) None,
            Add (Some ''a.org'') (Some False) (Some JsNull) (Some 0)]\<rparr>)"
    using inst [THEN conjunct2, THEN conjunct2, THEN conjunct2, THEN conjunct2, THEN conjunct1]
      inst [THEN conjunct1] pending
    by (simp add: at_index_def new_RuleOutput_def)
  have suffix: "trie_suffix (domainTrie (addFromDomainsetPromise ?new [''.example.com'', ''a.org'']))
      = {''example.com''}"
    using inst [THEN conjunct2, THEN conjunct1]
    by (simp add: at_index_def new_RuleOutput_def trie_suffix_def)
  have exact: "trie_exact (domainTrie (addFromDomainsetPromise ?new [''.example.com'', ''a.org'']))
      = {''a.org''}"
    using inst [THEN conjunct2, THEN conjunct2, THEN conjunct1]
    by (simp add: at_index_def new_RuleOutput_def trie_exact_def)
  have queued: "pendingPromise ?first = Some [FromDomainset [''a.org'']]"
    by (simp add: addFromDomainset_def enqueue_def new_RuleOutput_def)
  have before: "done_op ?first
      = Inr (?new\<lparr>domainTrie := [Add (Some ''a.org'') (Some False) (Some JsNull) (Some 0)]\<rparr>)"
    using domainset_lines_suffix_or_exact [of ?new "[''a.org'']", THEN conjunct2, THEN conjunct2,
        THEN conjunct2, THEN conjunct2, THEN conjunct1] pending
    by (simp add: at_index_def new_RuleOutput_def trie_add_def)
  have chained: "done_op (addFromDomainset ?first [''.example.com'', ''b.net''])
      = Inr (?new\<lparr>domainTrie :=
           [Add (Some ''a.org'') (Some False) (Some JsNull) (Some 0),
            Add (Some ''.example.com'') (Some True) (Some (JsNum 1)) None,
            Add (Some ''b.net'') (Some False) (Some JsNull) (Some 0)]\<rparr>)"
  proof -
    have "done_op (addFromDomainset ?first [''.example.com'', ''b.net''])
        = Inr (addFromDomainsetPromise
            (?new\<lparr>domainTrie := [Add (Some ''a.org'') (Some False) (Some JsNull) (Some 0)]\<rparr>)
            [''.example.com'', ''b.net''])"
      using domainset_lines_suffix_or_exact [of ?first "[''.example.com'', ''b.net'']",
          THEN conjunct2, THEN conjunct2, THEN conjunct2, THEN conjunct1]
      by (simp only: before sum.case)
    then show ?thesis
      by (simp add: at_index_def new_RuleOutput_def trie_add_def addDomainSuffix_def)
  qed
  have several: "run_ops ?new (map AddFromDomainset [[''a.org''], [''.example.com'', ''b.net'']])
      = Inr (?new\<lparr>domainTrie :=
           [Add (Some ''a.org'') (Some False) (Some JsNull) (Some 0),
            Add (Some ''.example.com'') (Some True) (Some (JsNum 1)) None,
            Add (Some ''b.net'') (Some False) (Some JsNull) (Some 0)]\<rparr>)"
    using domainset_lines_suffix_or_exact
        [of ?new _ "[[''a.org''], [''.example.com'', ''b.net'']]", THEN conjunct2, THEN conjunct2,
         THEN conjunct2, THEN conjunct2, THEN conjunct2] pending
    by (simp add: at_index_def new_RuleOutput_def trie_add_def addDomainSuffix_def)
  from pending run suffix exact queued before chained several show ?thesis by blast
qed

subsection \<open>URL-REGEX lines through the chain\<close>

lemma url_regex_line_inside:
  "addFromRulesetPromise st (pre @ (''URL-REGEX,'' @ rest) # post) =
     (case addFromRulesetPromise st pre of
        Inl e \<Rightarrow> Inl e
      | Inr s \<Rightarrow>
          addFromRulesetPromise (s\<lparr>urlRegex := insert (Some rest) (urlRegex s)\<rparr>) post)"
  by (simp only: addFromRulesetPromise_line_inside url_regex_line sum.case)

lemma url_regex_line_kept:
  assumes run: "addFromRulesetPromise st source = Inr st'"
    and line: "(''URL-REGEX,'' @ rest) \<in> set source"
  shows "Some rest \<in> urlRegex st'"
proof -
  from line obtain pre post where source: "source = pre @ (''URL-REGEX,'' @ rest) # post"
    by (auto dest: split_list)
  from run obtain s where
    rest: "addFromRulesetPromise (s\<lparr>urlRegex := insert (Some rest) (urlRegex s)\<rparr>) post = Inr st'"
    unfolding source url_regex_line_inside by (auto split: sum.splits)
  have "urlRegex (s\<lparr>urlRegex := insert (Some rest) (urlRegex s)\<rparr>) \<subseteq> urlRegex st'"
    using source_grows [OF rest] by (rule sets_within_urlRegex)
  then show ?thesis by simp
qed

text \<open>
  C9. For a line \<open>URL-REGEX,rest\<close>, whatever commas \<open>rest\<close> holds, the fields after the
  type joined with commas are \<open>rest\<close> again, and \<open>rest\<close> is what the line adds to
  \<open>urlRegex\<close>, and nothing else changes. So it is wherever the line stands in a source:
  the lines before it are classified, then \<open>rest\<close> is added, then the lines after it are
  classified. \<open>addFromRuleset\<close> followed by \<open>done()\<close> runs this loop over the whole source
  on the instance that the ingestions queued before it leave, whatever they are; so when
  \<open>done()\<close> succeeds, \<open>urlRegex\<close> holds \<open>rest\<close> for every such line of the source. On an
  instance with nothing pending, a source of this one line adds \<open>rest\<close> and nothing else.
\<close>

theorem url_regex_keeps_remainder:
  "js_join '','' (drop 1 (js_split CHR '','' (''URL-REGEX,'' @ rest))) = rest
   \<and> addFromRuleset_line st (''URL-REGEX,'' @ rest) =
       Inr (st\<lparr>urlRegex := insert (Some rest) (urlRegex st)\<rparr>)
   \<and> addFromRulesetPromise st (pre @ (''URL-REGEX,'' @ rest) # post) =
       (case addFromRulesetPromise st pre of
          Inl e \<Rightarrow> Inl e
        | Inr s \<Rightarrow>
            addFromRulesetPromise (s\<lparr>urlRegex := insert (Some rest) (urlRegex s)\<rparr>) post)
   \<and> done_op (addFromRuleset st source) =
       (case done_op st of
          Inl e \<Rightarrow> Inl e
        | Inr s \<Rightarrow> addFromRulesetPromise s source)
   \<and> (\<forall>st'. done_op (addFromRuleset st source) = Inr st'
          \<and> (''URL-REGEX,'' @ rest) \<in> set source \<longrightarrow>
        Some rest \<in> urlRegex st')
   \<and> (pendingPromise st = None \<longrightarrow>
        done_op (addFromRuleset st [''URL-REGEX,'' @ rest]) =
          Inr (st\<lparr>urlRegex := insert (Some rest) (urlRegex st)\<rparr>))"
proof (intro conjI impI allI)
  show "js_join '','' (drop 1 (js_split CHR '','' (''URL-REGEX,'' @ rest))) = rest"
    unfolding split_url_regex by (simp add: js_join_split)
next
  show "addFromRuleset_line st (''URL-REGEX,'' @ rest) =
      Inr (st\<lparr>urlRegex := insert (Some rest) (urlRegex st)\<rparr>)"
    by (rule url_regex_line)
next
  show "addFromRulesetPromise st (pre @ (''URL-REGEX,'' @ rest) # post) =
      (case addFromRulesetPromise st pre of
         Inl e \<Rightarrow> Inl e
       | Inr s \<Rightarrow>
           addFromRulesetPromise (s\<lparr>urlRegex := insert (Some rest) (urlRegex s)\<rparr>) post)"
    by (rule url_regex_line_inside)
next
  show "done_op (addFromRuleset st source) =
      (case done_op st of
         Inl e \<Rightarrow> Inl e
       | Inr s \<Rightarrow> addFromRulesetPromise s source)"
    by (rule done_after_queued_ruleset)
next
  fix st'
  assume "done_op (addFromRuleset st source) = Inr st'
      \<and> (''URL-REGEX,'' @ rest) \<in> set source"
  then obtain s where "addFromRulesetPromise s source = Inr st'"
    and "(''URL-REGEX,'' @ rest) \<in> set source"
    unfolding done_after_queued_ruleset by (auto split: sum.splits)
  then show "Some rest \<in> urlRegex st'"
    by (rule url_regex_line_kept)
next
  assume "pendingPromise st = None"
  then have "done_op (addFromRuleset st [''URL-REGEX,'' @ rest]) =
      addFromRulesetPromise st [''URL-REGEX,'' @ rest]"
    by (rule done_after_addFromRuleset)
  then show "done_op (addFromRuleset st [''URL-REGEX,'' @ rest]) =
      Inr (st\<lparr>urlRegex := insert (Some rest) (urlRegex st)\<rparr>)"
    by (simp only: addFromRulesetPromise.simps url_regex_line sum.case)
qed

theorem url_regex_keeps_remainder_witness:
  "js_join '','' (drop 1 (js_split CHR '','' ''URL-REGEX,^https?://a.b/x{1,3},y''))
     = ''^https?://a.b/x{1,3},y''
   \<and> pendingPromise (new_RuleOutput :: unit RuleOutput) = None
   \<and> done_op (addFromRuleset (new_RuleOutput :: unit RuleOutput)
         [''URL-REGEX,^https?://a.b/x{1,3},y''])
       = Inr (new_RuleOutput\<lparr>urlRegex := {Some ''^https?://a.b/x{1,3},y''}\<rparr>)
   \<and> pendingPromise (addFromDomainset (new_RuleOutput :: unit RuleOutput) [''a.org''])
       = Some [FromDomainset [''a.org'']]
   \<and> done_op (addFromRuleset (addFromDomainset (new_RuleOutput :: unit RuleOutput) [''a.org''])
         [''DOMAIN-KEYWORD,google'', ''URL-REGEX,^https?://a.b/x{1,3},y'', ''FINAL,DIRECT''])
       = Inr (new_RuleOutput
           \<lparr>domainTrie := [Add (Some ''a.org'') (Some False) (Some JsNull) (Some 0)],
            domainKeywords := {Some ''google''},
            urlRegex := {Some ''^https?://a.b/x{1,3},y''},
            otherRules := [''FINAL,DIRECT'']\<rparr>)
   \<and> Some ''^https?://a.b/x{1,3},y'' \<in> urlRegex (new_RuleOutput
           \<lparr>domainTrie := [Add (Some ''a.org'') (Some False) (Some JsNull) (Some 0)],
            domainKeywords := {Some ''google''},
            urlRegex := {Some ''^https?://a.b/x{1,3},y''},
            otherRules := [''FINAL,DIRECT'']\<rparr> :: unit RuleOutput)"
proof -
  let ?new = "new_RuleOutput :: unit RuleOutput"
  let ?first = "addFromDomainset ?new [''a.org'']"
  let ?mid = "?new\<lparr>domainTrie := [Add (Some ''a.org'') (Some False) (Some JsNull) (Some 0)]\<rparr>"
  let ?source = "[''DOMAIN-KEYWORD,google'', ''URL-REGEX,^https?://a.b/x{1,3},y'', ''FINAL,DIRECT'']"
  let ?last = "?new
           \<lparr>domainTrie := [Add (Some ''a.org'') (Some False) (Some JsNull) (Some 0)],
            domainKeywords := {Some ''google''},
            urlRegex := {Some ''^https?://a.b/x{1,3},y''},
            otherRules := [''FINAL,DIRECT'']\<rparr>"
  have pending: "pendingPromise ?new = None"
    by (simp add: new_RuleOutput_def)
  have line: "''URL-REGEX,'' @ ''^https?://a.b/x{1,3},y'' = ''URL-REGEX,^https?://a.b/x{1,3},y''"
    by simp
  have source: "[''DOMAIN-KEYWORD,google''] @ ''URL-REGEX,^https?://a.b/x{1,3},y'' # [''FINAL,DIRECT'']
      = ?source"
    by simp
  note inst = url_regex_keeps_remainder [of "''^https?://a.b/x{1,3},y''" ?new]
  have one: "js_join '','' (drop 1 (js_split CHR '','' ''URL-REGEX,^https?://a.b/x{1,3},y''))
      = ''^https?://a.b/x{1,3},y''"
    using inst [THEN conjunct1] unfolding line .
  have two: "done_op (addFromRuleset ?new [''URL-REGEX,^https?://a.b/x{1,3},y''])
      = Inr (?new\<lparr>urlRegex := {Some ''^https?://a.b/x{1,3},y''}\<rparr>)"
    using inst [THEN conjunct2, THEN conjunct2, THEN conjunct2, THEN conjunct2, THEN conjunct2]
      pending unfolding line
    by (simp add: new_RuleOutput_def)
  have queued: "pendingPromise ?first = Some [FromDomainset [''a.org'']]"
    by (simp add: addFromDomainset_def enqueue_def new_RuleOutput_def)
  have before: "done_op ?first = Inr ?mid"
    using done_after_addFromDomainset [OF pending, of "[''a.org'']"]
    by (simp add: at_index_def new_RuleOutput_def trie_add_def)
  have keyword: "addFromRulesetPromise ?mid [''DOMAIN-KEYWORD,google'']
      = Inr (?mid\<lparr>domainKeywords := {Some ''google''}\<rparr>)"
    by (simp add: addFromRuleset_line_def at_index_def addDomainKeyword_def new_RuleOutput_def)
  have final: "addFromRulesetPromise
        (?mid\<lparr>domainKeywords := {Some ''google''},
              urlRegex := {Some ''^https?://a.b/x{1,3},y''}\<rparr>) [''FINAL,DIRECT'']
      = Inr ?last"
    by (simp add: addFromRuleset_line_def at_index_def new_RuleOutput_def)
  have loop: "addFromRulesetPromise ?mid ?source = Inr ?last"
  proof -
    have "addFromRulesetPromise ?mid ?source
        = addFromRulesetPromise
            (?mid\<lparr>domainKeywords := {Some ''google''},
                  urlRegex := insert (Some ''^https?://a.b/x{1,3},y'')
                    (urlRegex (?mid\<lparr>domainKeywords := {Some ''google''}\<rparr>))\<rparr>)
            [''FINAL,DIRECT'']"
      using url_regex_keeps_remainder
          [of "''^https?://a.b/x{1,3},y''" ?mid "[''DOMAIN-KEYWORD,google'']" "[''FINAL,DIRECT'']",
           THEN conjunct2, THEN conjunct2, THEN conjunct1]
      unfolding line source by (simp only: keyword sum.case)
    also have "\<dots> = Inr ?last"
      using final by (simp add: new_RuleOutput_def)
    finally show ?thesis .
  qed
  have chained: "done_op (addFromRuleset ?first ?source) = Inr ?last"
    using url_regex_keeps_remainder
        [of _ ?first _ _ ?source, THEN conjunct2, THEN conjunct2, THEN conjunct2, THEN conjunct1]
    by (simp only: before sum.case loop)
  have inside: "''URL-REGEX,^https?://a.b/x{1,3},y'' \<in> set ?source"
    by simp
  have held: "Some ''^https?://a.b/x{1,3},y'' \<in> urlRegex ?last"
    using url_regex_keeps_remainder
        [of "''^https?://a.b/x{1,3},y''" ?first _ _ ?source, THEN conjunct2, THEN conjunct2,
         THEN conjunct2, THEN conjunct2, THEN conjunct1, rule_format, of ?last]
      chained inside
    unfolding line by blast
  from one pending two queued chained held show ?thesis by blast
qed

subsection \<open>Rule sets through the chain\<close>



end
